theory Spec2Isabelle
  imports Main "HOL-Library.Sublist"
begin

section \<open>The prompt template\<close>

text \<open>
  The module constant \<open>PROMPT_TEMPLATE\<close> of \<open>prompt_formatter.py\<close>: a triple-quoted
  string, so it starts with the line break that follows the opening quotes, and every
  source line ends with a line break.  It is transcribed line by line.
\<close>

definition PROMPT_TEMPLATE :: string where
  \<open>PROMPT_TEMPLATE =
    ''\<newline>'' @
    ''## Prompt for Generating Official Meeting Reports\<newline>'' @
    ''\<newline>'' @
    ''**Role:** You are an AI assistant specialized in processing official meeting records and generating accurate, objective summaries. Your primary goal is to create a factual report based *exclusively* on the provided definitive source material, typically a meeting transcript.\<newline>'' @
    ''\<newline>'' @
    ''**Task:** Generate a thorough and accurate report summarizing a specific official meeting (e.g., [MEETING_BODY]). The report should accurately reflect the discussions, decisions, and outcomes based *only* on the provided transcript from [MEETING_DATE].\<newline>'' @
    ''\<newline>'' @
    ''**Input:**\<newline>'' @
    ''\<newline>'' @
    ''1.  **Primary Source (Required):** The full, official transcript of the meeting:\<newline>'' @
    ''    ```transcript\<newline>'' @
    ''    [MEETING_TRANSCRIPT_TEXT]\<newline>'' @
    ''    ```\<newline>'' @
    ''\<newline>'' @
    ''2.  **Meeting Context (Required):**\<newline>'' @
    ''    * Meeting Body: [MEETING_BODY]\<newline>'' @
    ''    * Meeting Date: [MEETING_DATE]\<newline>'' @
    ''\<newline>'' @
    ''3.  **Report Type (Required):** [REPORT_TYPE]\<newline>'' @
    ''    * Specific Topic (if applicable): [SPECIFIC_TOPIC]\<newline>'' @
    ''\<newline>'' @
    ''4.  **Supporting Documents (Optional):**\<newline>'' @
    ''    ```supporting_docs\<newline>'' @
    ''    [OPTIONAL_SUPPORTING_DOCS]\<newline>'' @
    ''    ```\<newline>'' @
    ''\<newline>'' @
    ''5.  **Style Guidelines (Optional):**\<newline>'' @
    ''    ```style_guidelines\<newline>'' @
    ''    [STYLE_GUIDELINES]\<newline>'' @
    ''    ```\<newline>'' @
    ''\<newline>'' @
    ''**Process & Instructions:**\<newline>'' @
    ''\<newline>'' @
    ''1.  **Prioritize Transcript:** Base the entire report *solely* on the provided official transcript text. Do not incorporate information from external knowledge or preliminary summaries unless explicitly instructed and corroborated by the transcript.\<newline>'' @
    ''2.  **Verify Information:** Meticulously extract and verify all details from the transcript: Facts (actions, motions, decisions, figures, item numbers), Votes (precise counts, abstentions), Speakers & Names (accurate attribution, use **Name** format, ignore obvious transcript spelling errors if correct spelling is known), Procedural Details (referrals, readings, etc.).\<newline>'' @
    ''3.  **Handle Quotes:** Identify direct quotes. Include quotes **only if they are exactly verbatim** from the transcript. Use `<u>underlining</u>` format for verbatim quotes. Do *not* paraphrase and present it as a direct quote.\<newline>'' @
    ''4.  **Identify Key Topics (for Comprehensive Reports):** Analyze the transcript to identify the most significant discussions/actions based on debate intensity, financial/policy/community impact.\<newline>'' @
    ''5.  **Structure the Report:**\<newline>'' @
    ''    * **Comprehensive:** Organize logically (thematically or chronologically). Detail key topics. Include sections for major items, public input, other actions, context.\<newline>'' @
    ''    * **Topic-Specific:** Focus exclusively on the specified topic (`[SPECIFIC_TOPIC]`). Include all relevant discussion, actions, context, and outcomes related *only* to that item.\<newline>'' @
    ''6.  **Drafting Style:** Maintain a neutral, objective, factual tone. Clearly attribute statements/arguments. Use item/order numbers for clarity. Summarize routine actions concisely.\<newline>'' @
    ''7.  **Context & Notes:** Include relevant context (opening/closing, tributes). If ambiguities remain *after analyzing the transcript*, list them in a separate "Notes for Clarification" section. Do not speculate.\<newline>'' @
    ''8.  **Review:** Ensure the final report is accurate, clear, complete (for the specified scope), internally consistent, and adheres to any provided Style Guidelines.\<newline>'' @
    ''\<newline>'' @
    ''**Output:**\<newline>'' @
    ''\<newline>'' @
    ''* Produce the report in Markdown format.\<newline>'' @
    ''* Adhere strictly to the specified `[REPORT_TYPE]`.\<newline>'' @
    ''* Use specified formatting for names (`**Name**`) and quotes (`<u>quote</u>`) consistently.\<newline>''\<close>

section \<open>Python string primitives\<close>

text \<open>
  Strings are lists of characters with the code points 0 to 255.  Among these
  \<open>str.isspace\<close> holds of the code points 9 to 13 and 28 to 32, of 0x85 (next line) and
  of 0xA0 (no-break space).
\<close>

definition isspace :: "char \<Rightarrow> bool" where
  "isspace c =
     (c \<in> set [CHR 0x09, CHR 0x0A, CHR 0x0B, CHR 0x0C, CHR 0x0D,
                CHR 0x1C, CHR 0x1D, CHR 0x1E, CHR 0x1F, CHR 0x20, CHR 0x85, CHR 0xA0])"

text \<open>\<open>s.strip()\<close>: drop the white space at both ends.\<close>

definition strip :: "string \<Rightarrow> string" where
  "strip s = rev (dropWhile isspace (rev (dropWhile isspace s)))"

text \<open>
  \<open>s.replace(old, new)\<close> for a non-empty \<open>old\<close>: a single scan from the left; at an
  occurrence of \<open>old\<close> the text \<open>new\<close> is emitted and the scan resumes behind the
  occurrence, so the emitted text is never scanned again within the same call.
\<close>

fun replace_scan :: "string \<Rightarrow> string \<Rightarrow> string \<Rightarrow> string" where
  "replace_scan old new [] = []"
| "replace_scan old new (c # cs) =
     (if old \<noteq> [] \<and> prefix old (c # cs)
      then new @ replace_scan old new (drop (length old) (c # cs))
      else c # replace_scan old new cs)"

text \<open>With an empty \<open>old\<close>, Python puts \<open>new\<close> before every character and at the end.\<close>

definition py_replace :: "string \<Rightarrow> string \<Rightarrow> string \<Rightarrow> string" where
  "py_replace old new s =
     (if old = [] then new @ concat (map (\<lambda>c. c # new) s) else replace_scan old new s)"

section \<open>Placeholder substitution\<close>

text \<open>
  Lines 170 to 177 of \<open>generate_prompt\<close>, with the template as a parameter: seven
  \<open>str.replace\<close> calls, each applied to the result of the one before.  The arguments are
  the local variables of \<open>generate_prompt\<close>; the two optional texts get their fallback
  inside the call, as in the source.
\<close>

definition render ::
  "string \<Rightarrow> string \<Rightarrow> string \<Rightarrow> string \<Rightarrow> string \<Rightarrow> string \<Rightarrow> string \<Rightarrow> string \<Rightarrow> string" where
  "render template transcript_text meeting_date meeting_body report_type specific_topic
      supporting_docs style_guidelines =
     (let formatted_prompt = template;
          formatted_prompt = py_replace ''[MEETING_TRANSCRIPT_TEXT]'' transcript_text formatted_prompt;
          formatted_prompt = py_replace ''[MEETING_DATE]'' meeting_date formatted_prompt;
          formatted_prompt = py_replace ''[MEETING_BODY]'' meeting_body formatted_prompt;
          formatted_prompt = py_replace ''[REPORT_TYPE]'' report_type formatted_prompt;
          formatted_prompt = py_replace ''[SPECIFIC_TOPIC]'' specific_topic formatted_prompt;
          formatted_prompt = py_replace ''[OPTIONAL_SUPPORTING_DOCS]''
            (if supporting_docs \<noteq> [] then supporting_docs else ''None provided.'') formatted_prompt;
          formatted_prompt = py_replace ''[STYLE_GUIDELINES]''
            (if style_guidelines \<noteq> [] then style_guidelines else ''None provided.'') formatted_prompt
      in formatted_prompt)"

section \<open>The window and its dialogs\<close>

text \<open>
  The module-level widgets of the program, as one record.  A Tk text area holds a text and
  the state set by \<open>config(state=...)\<close>; \<open>insert\<close> and \<open>delete\<close> do nothing while the
  state is \<open>DISABLED\<close>.  The text is kept without the line break Tk puts at the end of every
  text area; \<open>get("1.0", tk.END)\<close> returns the text with it.  The dialogs that
  \<open>messagebox\<close> has shown are kept in order, each with its title and message.
\<close>

datatype tk_state = NORMAL | DISABLED

record text_widget =
  wtext :: string
  wstate :: tk_state

datatype message =
    showinfo string string
  | showwarning string string
  | showerror string string

record gui =
  body_entry :: string
  date_entry :: string
  transcript_text_area :: text_widget
  report_type_var :: string
  topic_entry :: string
  docs_text_area :: text_widget
  style_text_area :: text_widget
  output_text_area :: text_widget
  messagebox :: "message list"

definition text_get :: "text_widget \<Rightarrow> string" where
  "text_get w = wtext w @ ''\<newline>''"

definition text_config :: "tk_state \<Rightarrow> text_widget \<Rightarrow> text_widget" where
  "text_config s w = w\<lparr>wstate := s\<rparr>"

text \<open>\<open>delete("1.0", tk.END)\<close>\<close>

definition text_delete_all :: "text_widget \<Rightarrow> text_widget" where
  "text_delete_all w = (if wstate w = NORMAL then w\<lparr>wtext := []\<rparr> else w)"

text \<open>\<open>insert("1.0", s)\<close> and \<open>insert(tk.END, s)\<close>\<close>

definition text_insert_start :: "string \<Rightarrow> text_widget \<Rightarrow> text_widget" where
  "text_insert_start s w = (if wstate w = NORMAL then w\<lparr>wtext := s @ wtext w\<rparr> else w)"

definition text_insert_end :: "string \<Rightarrow> text_widget \<Rightarrow> text_widget" where
  "text_insert_end s w = (if wstate w = NORMAL then w\<lparr>wtext := wtext w @ s\<rparr> else w)"

definition show_message :: "message \<Rightarrow> gui \<Rightarrow> gui" where
  "show_message m st = st\<lparr>messagebox := messagebox st @ [m]\<rparr>"

section \<open>Generating the prompt\<close>

text \<open>
  \<open>generate_prompt\<close>: read and trim the inputs, check the required ones in the order of
  the source, returning after the first error dialog, then substitute and replace the text
  of the output area, which is made writable for that and read-only again.
\<close>

definition generate_prompt :: "gui \<Rightarrow> gui" where
  \<open>generate_prompt st =
     (let transcript_text = strip (text_get (transcript_text_area st));
          meeting_date = strip (date_entry st);
          meeting_body = strip (body_entry st);
          report_type = report_type_var st;
          specific_topic =
            (if report_type = ''Topic-Specific'' then strip (topic_entry st) else ''N/A'');
          supporting_docs = strip (text_get (docs_text_area st));
          style_guidelines = strip (text_get (style_text_area st))
      in if transcript_text = [] then
           show_message (showerror ''Input Error'' ''Meeting Transcript text cannot be empty.'') st
         else if meeting_date = [] then
           show_message (showerror ''Input Error'' ''Meeting Date cannot be empty.'') st
         else if meeting_body = [] then
           show_message (showerror ''Input Error'' ''Meeting Body cannot be empty.'') st
         else if report_type = ''Topic-Specific'' \<and> specific_topic = [] then
           show_message (showerror ''Input Error''
             ''Specific Topic cannot be empty when Report Type is 'Topic-Specific'.'') st
         else
           (let formatted_prompt =
                  render PROMPT_TEMPLATE transcript_text meeting_date meeting_body report_type
                    specific_topic supporting_docs style_guidelines
            in st\<lparr>output_text_area :=
                    text_config DISABLED
                      (text_insert_end formatted_prompt
                        (text_delete_all (text_config NORMAL (output_text_area st))))\<rparr>))\<close>

section \<open>Loading files\<close>

text \<open>
  The file dialog and the file system are the environment: the chosen paths are an
  argument (empty when the user cancels), and \<open>fs\<close> gives for a path what
  \<open>open(...).read()\<close> does there, the text of the exception (\<open>Inl\<close>) or the content (\<open>Inr\<close>).
  \<open>os.path.basename\<close> is the POSIX one: what follows the last slash.
\<close>

type_synonym files = "string \<Rightarrow> string + string"

definition basename :: "string \<Rightarrow> string" where
  "basename filepath = rev (takeWhile (\<lambda>c. c \<noteq> CHR ''/'') (rev filepath))"

text \<open>A natural number in decimal, as an f-string prints it.\<close>

fun str_nat :: "nat \<Rightarrow> string" where
  "str_nat n =
     (if n < 10 then [''0123456789'' ! n]
      else str_nat (n div 10) @ [''0123456789'' ! (n mod 10)])"

declare str_nat.simps [simp del]

text \<open>
  \<open>_load_file_content(text_widget, title)\<close>: the widget is given by the update function of
  its field.  The widget is touched only after the file has been read.
\<close>

definition load_file_content ::
  "((text_widget \<Rightarrow> text_widget) \<Rightarrow> gui \<Rightarrow> gui) \<Rightarrow> string \<Rightarrow> string \<Rightarrow> files \<Rightarrow> gui \<Rightarrow> gui" where
  "load_file_content text_widget title filepath fs st =
     (if filepath = [] then st
      else case fs filepath of
        Inr content \<Rightarrow>
          show_message
            (showinfo ''File Loaded''
               (''Successfully loaded content from:\<newline>'' @ basename filepath))
            (text_widget
               (\<lambda>w. text_insert_start content (text_delete_all (text_config NORMAL w))) st)
      | Inl e \<Rightarrow>
          show_message
            (showerror ''Error Reading File''
               (''Failed to read file: '' @ filepath @ ''\<newline>'' @ e)) st)"

definition load_transcript_file :: "string \<Rightarrow> files \<Rightarrow> gui \<Rightarrow> gui" where
  "load_transcript_file = load_file_content transcript_text_area_update ''Select Transcript File''"

definition load_style_file :: "string \<Rightarrow> files \<Rightarrow> gui \<Rightarrow> gui" where
  "load_style_file = load_file_content style_text_area_update ''Select Style Guidelines File''"

text \<open>The body of the loop of \<open>load_and_append_docs_files\<close>, with the running count.\<close>

definition separator :: "string \<Rightarrow> string" where
  "separator filename =
     ''\<newline>\<newline>--- Supporting Doc: '' @ filename @ '' ---\<newline>\<newline>''"

fun append_files :: "files \<Rightarrow> string list \<Rightarrow> gui \<times> nat \<Rightarrow> gui \<times> nat" where
  "append_files fs [] (st, files_loaded_count) = (st, files_loaded_count)"
| "append_files fs (filepath # filepaths) (st, files_loaded_count) =
     (case fs filepath of
        Inr content \<Rightarrow>
          append_files fs filepaths
            (st\<lparr>docs_text_area :=
                  text_insert_end content
                    (text_insert_end (separator (basename filepath)) (docs_text_area st))\<rparr>,
             files_loaded_count + 1)
      | Inl e \<Rightarrow>
          append_files fs filepaths
            (show_message
               (showwarning ''Error Reading File''
                  (''Failed to read file: '' @ filepath @ ''\<newline>'' @ e @
                   ''\<newline>Skipping this file.'')) st,
             files_loaded_count))"

definition load_and_append_docs_files :: "string list \<Rightarrow> files \<Rightarrow> gui \<Rightarrow> gui" where
  "load_and_append_docs_files filepaths fs st =
     (if filepaths = [] then st
      else
        (let (st', files_loaded_count) =
               append_files fs filepaths
                 (st\<lparr>docs_text_area := text_config NORMAL (docs_text_area st)\<rparr>, 0)
         in if files_loaded_count > 0 then
              show_message
                (showinfo ''Files Appended''
                   (''Successfully appended content from '' @ str_nat files_loaded_count @
                    '' file(s).'')) st'
            else st'))"

section \<open>Simultaneous substitution\<close>

text \<open>The seven placeholder tokens of the template.\<close>

definition placeholders :: "string list" where
  "placeholders =
     [''[MEETING_TRANSCRIPT_TEXT]'', ''[MEETING_DATE]'', ''[MEETING_BODY]'', ''[REPORT_TYPE]'',
      ''[SPECIFIC_TOPIC]'', ''[OPTIONAL_SUPPORTING_DOCS]'', ''[STYLE_GUIDELINES]'']"

text \<open>
  The substitution the specification describes: one pass over the template in which every
  placeholder token is replaced by the text \<open>f\<close> gives for it, and the inserted text is
  never examined.  It is the reference the sequential \<open>render\<close> is compared with.
\<close>

fun fill :: "(string \<Rightarrow> string) \<Rightarrow> string \<Rightarrow> string" where
  "fill f [] = []"
| "fill f (c # cs) =
     (case find (\<lambda>tok. prefix tok (c # cs)) placeholders of
        Some tok \<Rightarrow> f tok @ fill f (drop (length tok - 1) cs)
      | None \<Rightarrow> c # fill f cs)"

text \<open>The characters placeholder tokens are made of: brackets, capitals and the underscore.\<close>

definition token_char :: "char \<Rightarrow> bool" where
  "token_char c =
     (c \<in> set ''[]_ABCDEFGHIJKLMNOPQRSTUVWXYZ'')"

text \<open>
  A template is delimited when every opening bracket in it starts a placeholder token and
  the token is followed by the end of the text or by a character that is no token character.
\<close>

fun delimited :: "string \<Rightarrow> bool" where
  "delimited [] = True"
| "delimited (c # cs) =
     (if c \<noteq> CHR ''['' then delimited cs
      else (case find (\<lambda>tok. prefix tok (c # cs)) placeholders of
              None \<Rightarrow> False
            | Some tok \<Rightarrow>
                (case drop (length tok - 1) cs of [] \<Rightarrow> True | d # ds \<Rightarrow> \<not> token_char d) \<and>
                delimited (drop (length tok - 1) cs)))"

section \<open>Notions used in the statements\<close>

text \<open>
  A required input is missing: the condition under which \<open>generate_prompt\<close> shows an error
  dialog and returns, in the order of its four checks.
\<close>

definition required_missing :: "gui \<Rightarrow> bool" where
  "required_missing st =
     (strip (text_get (transcript_text_area st)) = [] \<or>
      strip (date_entry st) = [] \<or>
      strip (body_entry st) = [] \<or>
      (report_type_var st = ''Topic-Specific'' \<and> strip (topic_entry st) = []))"

text \<open>The document \<open>generate_prompt\<close> computes from the inputs of a state.\<close>

definition document :: "gui \<Rightarrow> string" where
  "document st =
     render PROMPT_TEMPLATE
       (strip (text_get (transcript_text_area st)))
       (strip (date_entry st))
       (strip (body_entry st))
       (report_type_var st)
       (if report_type_var st = ''Topic-Specific'' then strip (topic_entry st) else ''N/A'')
       (strip (text_get (docs_text_area st)))
       (strip (text_get (style_text_area st)))"

text \<open>What the user has entered: the seven inputs \<open>generate_prompt\<close> reads.\<close>

definition inputs ::
  "gui \<Rightarrow> string \<times> string \<times> string \<times> string \<times> string \<times> string \<times> string" where
  "inputs st =
     (wtext (transcript_text_area st), date_entry st, body_entry st, report_type_var st,
      topic_entry st, wtext (docs_text_area st), wtext (style_text_area st))"

text \<open>
  The example of the specification: a topic-specific report without a topic.  The output
  area still shows an earlier document.
\<close>

definition spec_example :: gui where
  "spec_example =
     \<lparr>body_entry = ''City Council'', date_entry = ''2024-05-01'',
      transcript_text_area = \<lparr>wtext = ''...'', wstate = NORMAL\<rparr>,
      report_type_var = ''Topic-Specific'', topic_entry = [],
      docs_text_area = \<lparr>wtext = [], wstate = NORMAL\<rparr>,
      style_text_area = \<lparr>wtext = [], wstate = NORMAL\<rparr>,
      output_text_area = \<lparr>wtext = ''earlier output'', wstate = DISABLED\<rparr>,
      messagebox = []\<rparr>"

text \<open>The same meeting as a comprehensive report, with a left-over text in the topic entry.\<close>

definition comprehensive_example :: gui where
  "comprehensive_example =
     spec_example\<lparr>report_type_var := ''Comprehensive'', topic_entry := ''Zoning''\<rparr>"

text \<open>
  What a batch of \<open>load_and_append_docs_files\<close> adds to the supporting documents, the
  warnings it shows and the number of files it counts, each read off the paths in order.
\<close>

definition appended :: "files \<Rightarrow> string list \<Rightarrow> string" where
  "appended fs filepaths =
     concat (map (\<lambda>filepath. case fs filepath of
                    Inr content \<Rightarrow> separator (basename filepath) @ content
                  | Inl e \<Rightarrow> []) filepaths)"

definition read_warnings :: "files \<Rightarrow> string list \<Rightarrow> message list" where
  "read_warnings fs filepaths =
     concat (map (\<lambda>filepath. case fs filepath of
                    Inr content \<Rightarrow> []
                  | Inl e \<Rightarrow>
                      [showwarning ''Error Reading File''
                         (''Failed to read file: '' @ filepath @ ''\<newline>'' @ e @
                          ''\<newline>Skipping this file.'')]) filepaths)"

definition loaded_count :: "files \<Rightarrow> string list \<Rightarrow> nat" where
  "loaded_count fs filepaths = length (filter (\<lambda>filepath. \<not> isl (fs filepath)) filepaths)"

text \<open>A file system with two readable files; every other path fails.\<close>

definition two_files :: files where
  "two_files filepath =
     (if filepath = ''/home/clerk/agenda.txt'' then Inr ''X''
      else if filepath = ''minutes.md'' then Inr ''Y''
      else Inl ''No such file or directory'')"

text \<open>
  The fallback of the two optional texts, the mapping from each placeholder to the value of
  its field, and two conditions on a value: it contains none of the placeholders from
  position \<open>k\<close> of the substitution order on, and it contains no placeholder at all.
\<close>

definition or_none_provided :: "string \<Rightarrow> string" where
  "or_none_provided s = (if s \<noteq> [] then s else ''None provided.'')"

definition field_values ::
  "string \<Rightarrow> string \<Rightarrow> string \<Rightarrow> string \<Rightarrow> string \<Rightarrow> string \<Rightarrow> string \<Rightarrow> string \<Rightarrow> string" where
  "field_values transcript_text meeting_date meeting_body report_type specific_topic
      supporting_docs style_guidelines tok =
     (if tok = ''[MEETING_TRANSCRIPT_TEXT]'' then transcript_text
      else if tok = ''[MEETING_DATE]'' then meeting_date
      else if tok = ''[MEETING_BODY]'' then meeting_body
      else if tok = ''[REPORT_TYPE]'' then report_type
      else if tok = ''[SPECIFIC_TOPIC]'' then specific_topic
      else if tok = ''[OPTIONAL_SUPPORTING_DOCS]'' then or_none_provided supporting_docs
      else if tok = ''[STYLE_GUIDELINES]'' then or_none_provided style_guidelines
      else tok)"

definition no_later_token :: "nat \<Rightarrow> string \<Rightarrow> bool" where
  "no_later_token k v = list_all (\<lambda>p. \<not> sublist p v) (drop k placeholders)"

definition token_free :: "string \<Rightarrow> bool" where
  "token_free v = list_all (\<lambda>p. \<not> sublist p v) placeholders"

text \<open>
  A template is separated when every maximal run of token characters in it is a
  placeholder token or contains no placeholder token: each placeholder stands between
  characters that are no token characters, or at an end of the text, and the rest of the
  text forms no placeholder.  The scan keeps the run read so far in \<open>w\<close>.
\<close>

definition run_ok :: "string \<Rightarrow> bool" where
  "run_ok w = (w \<in> set placeholders \<or> token_free w)"



text \<open>
  The text that takes the place of a placeholder in the document of a state: what the
  seven replacements make of the placeholder itself, with the values \<open>generate_prompt\<close>
  reads from the state.
\<close>

definition slot :: "gui \<Rightarrow> string \<Rightarrow> string" where
  "slot st tok =
     render tok
       (strip (text_get (transcript_text_area st)))
       (strip (date_entry st))
       (strip (body_entry st))
       (report_type_var st)
       (if report_type_var st = ''Topic-Specific'' then strip (topic_entry st) else ''N/A'')
       (strip (text_get (docs_text_area st)))
       (strip (text_get (style_text_area st)))"

text \<open>
  A variant of the comprehensive example: a transcript that mentions the date placeholder.
\<close>

definition nested_token_example :: gui where
  "nested_token_example =
     comprehensive_example
       \<lparr>transcript_text_area := \<lparr>wtext = ''see [MEETING_DATE]'', wstate = NORMAL\<rparr>\<rparr>"

section \<open>The two outcomes of generate_prompt\<close>

lemma replace_output:
  "text_config DISABLED (text_insert_end s (text_delete_all (text_config NORMAL w))) =
     \<lparr>wtext = s, wstate = DISABLED\<rparr>"
  by (simp add: text_config_def text_insert_end_def text_delete_all_def)

lemma generate_prompt_rendered:
  "\<not> required_missing st \<Longrightarrow>
   generate_prompt st = st\<lparr>output_text_area := \<lparr>wtext = document st, wstate = DISABLED\<rparr>\<rparr>"
  by (auto simp: generate_prompt_def required_missing_def document_def Let_def replace_output)

lemma generate_prompt_error:
  "required_missing st \<Longrightarrow>
   \<exists>msg. generate_prompt st = show_message (showerror ''Input Error'' msg) st"
  by (auto simp: generate_prompt_def required_missing_def Let_def)

lemma required_missing_inputs:
  "inputs st1 = inputs st2 \<Longrightarrow> required_missing st1 = required_missing st2"
  by (simp add: inputs_def required_missing_def text_get_def)

lemma document_inputs: "inputs st1 = inputs st2 \<Longrightarrow> document st1 = document st2"
  by (simp add: inputs_def document_def text_get_def)

lemma comprehensive_example_ok: "\<not> required_missing comprehensive_example"
  by (simp add: required_missing_def comprehensive_example_def spec_example_def strip_def
      isspace_def text_get_def)

section \<open>The loop of load_and_append_docs_files\<close>

lemma append_files_result:
  "wstate (docs_text_area st) = NORMAL \<Longrightarrow>
   append_files fs filepaths (st, n) =
     (st\<lparr>docs_text_area :=
          (docs_text_area st)\<lparr>wtext := wtext (docs_text_area st) @ appended fs filepaths\<rparr>,
         messagebox := messagebox st @ read_warnings fs filepaths\<rparr>,
      n + loaded_count fs filepaths)"
proof (induction filepaths arbitrary: st n)
  case Nil
  then show ?case by (simp add: appended_def read_warnings_def loaded_count_def)
next
  case (Cons p ps)
  show ?case
  proof (cases "fs p")
    case (Inl e)
    with Cons show ?thesis
      by (simp add: appended_def read_warnings_def loaded_count_def show_message_def)
  next
    case (Inr c)
    with Cons show ?thesis
      by (simp add: appended_def read_warnings_def loaded_count_def text_insert_end_def)
  qed
qed

lemma load_and_append_result:
  "load_and_append_docs_files filepaths fs st =
     (if filepaths = [] then st
      else
        (st\<lparr>docs_text_area :=
             \<lparr>wtext = wtext (docs_text_area st) @ appended fs filepaths, wstate = NORMAL\<rparr>,
            messagebox := messagebox st @ read_warnings fs filepaths @
              (if loaded_count fs filepaths > 0
               then [showinfo ''Files Appended''
                       (''Successfully appended content from '' @
                        str_nat (loaded_count fs filepaths) @ '' file(s).'')]
               else [])\<rparr>))"
  by (simp add: load_and_append_docs_files_def append_files_result text_config_def
      show_message_def)

lemma appended_all_readable:
  "map fs filepaths = map Inr contents \<Longrightarrow>
   appended fs filepaths =
     concat (map (\<lambda>(filepath, content). separator (basename filepath) @ content)
               (zip filepaths contents))"
proof (induction filepaths arbitrary: contents)
  case Nil
  then show ?case by (simp add: appended_def)
next
  case (Cons p ps)
  then obtain c cs where "contents = c # cs" "fs p = Inr c" "map fs ps = map Inr cs"
    by (cases contents) auto
  with Cons.IH[of cs] show ?case by (simp add: appended_def)
qed

section \<open>Placeholders\<close>

lemma ph_nonempty: "p \<in> set placeholders \<Longrightarrow> p \<noteq> []"
  by (auto simp: placeholders_def)

lemma ph_bracket: "p \<in> set placeholders \<Longrightarrow> \<exists>r. p = CHR ''['' # r"
  by (auto simp: placeholders_def)

lemma ph_chars_all: "list_all (list_all token_char) placeholders"
  by (simp add: placeholders_def token_char_def)

lemma ph_chars: "p \<in> set placeholders \<Longrightarrow> c \<in> set p \<Longrightarrow> token_char c"
  using ph_chars_all by (auto simp: list_all_iff)

lemma ph_prefix_free_all:
  "list_all (\<lambda>p. list_all (\<lambda>q. prefix p q \<longrightarrow> p = q) placeholders) placeholders"
  by (simp add: placeholders_def)

lemma ph_prefix_free:
  "p \<in> set placeholders \<Longrightarrow> q \<in> set placeholders \<Longrightarrow> prefix p q \<Longrightarrow> p = q"
  using ph_prefix_free_all by (auto simp: list_all_iff)

lemma token_char_bracket: "token_char (CHR ''['')"
  by (simp add: token_char_def)

lemma find_ph_None: "c \<noteq> CHR ''['' \<Longrightarrow> find (\<lambda>tok. prefix tok (c # cs)) placeholders = None"
  by (auto simp: placeholders_def)

lemma find_ph_SomeD:
  assumes "find (\<lambda>tok. prefix tok xs) placeholders = Some p"
  shows "p \<in> set placeholders \<and> prefix p xs"
  using assms by (auto simp: find_Some_iff)

lemma find_ph_unique:
  assumes "p \<in> set placeholders" "prefix p xs"
  shows "find (\<lambda>tok. prefix tok xs) placeholders = Some p"
proof (cases "find (\<lambda>tok. prefix tok xs) placeholders")
  case None
  with assms show ?thesis by (auto simp: find_None_iff)
next
  case (Some q)
  then have q: "q \<in> set placeholders" "prefix q xs"
    using find_ph_SomeD by blast+
  from q(2) assms(2) have "prefix p q \<or> prefix q p"
    using prefix_same_cases by blast
  with q(1) assms(1) have "p = q"
    using ph_prefix_free by blast
  with Some show ?thesis by simp
qed

subsection \<open>One scan of replace\<close>

lemma replace_scan_Cons_other:
  "c \<notin> set old \<Longrightarrow> replace_scan old new (c # X) = c # replace_scan old new X"
  by (cases old) auto

lemma prefix_break:
  assumes "d \<notin> set old"
  shows "prefix old (X @ d # Y) \<longleftrightarrow> prefix old X"
proof
  assume "prefix old (X @ d # Y)"
  then have "prefix old X \<or> (\<exists>us. old = X @ us \<and> prefix us (d # Y))"
    by (simp add: prefix_append)
  then show "prefix old X"
  proof
    assume "prefix old X" then show ?thesis .
  next
    assume "\<exists>us. old = X @ us \<and> prefix us (d # Y)"
    then obtain us where us: "old = X @ us" "prefix us (d # Y)" by blast
    show ?thesis
    proof (cases us)
      case Nil
      with us show ?thesis by simp
    next
      case (Cons u us')
      with us have "u = d" by simp
      with Cons us assms show ?thesis by simp
    qed
  qed
next
  assume "prefix old X" then show "prefix old (X @ d # Y)" by simp
qed

lemma replace_scan_break:
  "d \<notin> set old \<Longrightarrow>
   replace_scan old new (X @ d # Y) = replace_scan old new X @ d # replace_scan old new Y"
proof (induction old new X rule: replace_scan.induct)
  case (1 old new)
  then show ?case by (simp add: replace_scan_Cons_other del: replace_scan.simps(2))
next
  case (2 old new c cs)
  show ?case
  proof (cases "old \<noteq> [] \<and> prefix old (c # cs)")
    case True
    then have len: "length old \<le> length (c # cs)" by (auto dest: prefix_length_le)
    from True have p: "prefix old ((c # cs) @ d # Y)"
      using prefix_prefix[of old "c # cs" "d # Y"] by blast
    have "replace_scan old new ((c # cs) @ d # Y) =
          new @ replace_scan old new (drop (length old) ((c # cs) @ d # Y))"
      using True p by simp
    also have "drop (length old) ((c # cs) @ d # Y) = drop (length old) (c # cs) @ d # Y"
      using len by (simp only: drop_append) simp
    also have "replace_scan old new (drop (length old) (c # cs) @ d # Y) =
               replace_scan old new (drop (length old) (c # cs)) @ d # replace_scan old new Y"
      using "2.IH"(1)[OF True "2.prems"] .
    finally show ?thesis using True by simp
  next
    case False
    then have np: "\<not> (old \<noteq> [] \<and> prefix old ((c # cs) @ d # Y))"
      using prefix_break[OF "2.prems", of "c # cs" Y] by auto
    have "replace_scan old new ((c # cs) @ d # Y) = c # replace_scan old new (cs @ d # Y)"
      using np by auto
    also have "replace_scan old new (cs @ d # Y) = replace_scan old new cs @ d # replace_scan old new Y"
      using "2.IH"(2)[OF False "2.prems"] .
    finally show ?thesis using False by auto
  qed
qed

lemma replace_scan_self: "old \<noteq> [] \<Longrightarrow> replace_scan old new old = new"
  by (cases old) auto

lemma replace_scan_absent: "\<not> sublist old s \<Longrightarrow> replace_scan old new s = s"
proof (induction s)
  case Nil then show ?case by simp
next
  case (Cons c cs)
  then have "\<not> prefix old (c # cs)" "\<not> sublist old cs"
    by (auto simp: sublist_Cons_right)
  with Cons.IH show ?case by simp
qed

section \<open>Sequential and simultaneous substitution\<close>

lemma fill_Cons_other: "c \<noteq> CHR ''['' \<Longrightarrow> fill f (c # cs) = c # fill f cs"
  by (simp add: find_ph_None)

lemma fill_token:
  "p \<in> set placeholders \<Longrightarrow> prefix p (c # cs) \<Longrightarrow>
   fill f (c # cs) = f p @ fill f (drop (length p - 1) cs)"
  by (simp add: find_ph_unique)

lemma delimited_Cons_other: "c \<noteq> CHR ''['' \<Longrightarrow> delimited (c # cs) = delimited cs"
  by simp

lemma delimited_token:
  "p \<in> set placeholders \<Longrightarrow> prefix p (c # cs) \<Longrightarrow>
   delimited (c # cs) =
     ((case drop (length p - 1) cs of [] \<Rightarrow> True | d # ds \<Rightarrow> \<not> token_char d) \<and>
      delimited (drop (length p - 1) cs))"
  using ph_bracket[of p] by (auto simp: find_ph_unique)

lemma delimited_bracketD:
  assumes "delimited (CHR ''['' # cs)"
  obtains p where "p \<in> set placeholders" "prefix p (CHR ''['' # cs)"
    "find (\<lambda>tok. prefix tok (CHR ''['' # cs)) placeholders = Some p"
    "delimited (drop (length p - 1) cs)"
    "drop (length p - 1) cs = [] \<or> (\<exists>d ds. drop (length p - 1) cs = d # ds \<and> \<not> token_char d)"
proof (cases "find (\<lambda>tok. prefix tok (CHR ''['' # cs)) placeholders")
  case None
  with assms show ?thesis by simp
next
  case (Some p)
  with assms have a: "(case drop (length p - 1) cs of [] \<Rightarrow> True | d # ds \<Rightarrow> \<not> token_char d)"
    and b: "delimited (drop (length p - 1) cs)" by simp_all
  from a have "drop (length p - 1) cs = [] \<or> (\<exists>d ds. drop (length p - 1) cs = d # ds \<and> \<not> token_char d)"
    by (cases "drop (length p - 1) cs") auto
  with Some b find_ph_SomeD[OF Some] that show ?thesis by blast
qed

lemma replace_scan_Cons_nohd:
  "old = h # r \<Longrightarrow> c \<noteq> h \<Longrightarrow> replace_scan old new (c # X) = c # replace_scan old new X"
  by auto

lemma not_token_char_D:
  assumes "\<not> token_char d" "p \<in> set placeholders"
  shows "d \<noteq> CHR ''[''" "d \<notin> set p"
  using assms token_char_bracket ph_chars by auto

lemma fill_replace_step:
  assumes old: "old \<in> set placeholders"
  shows "delimited T \<Longrightarrow>
         replace_scan old new (fill f T) = fill (\<lambda>tok. replace_scan old new (f tok)) T"
proof (induction T rule: delimited.induct)
  case 1
  show ?case by simp
next
  case (2 c cs)
  let ?g = "\<lambda>tok. replace_scan old new (f tok)"
  from old obtain r where oldr: "old = CHR ''['' # r" using ph_bracket by blast
  show ?case
  proof (cases "c = CHR ''[''")
    case False
    with "2.prems" have "delimited cs" by simp
    with "2.IH"(1) False have "replace_scan old new (fill f cs) = fill ?g cs" by simp
    with False oldr show ?thesis
      by (simp add: fill_Cons_other replace_scan_Cons_nohd del: fill.simps replace_scan.simps)
  next
    case True
    with "2.prems" have d: "delimited (CHR ''['' # cs)" by simp
    from d obtain p where p: "p \<in> set placeholders" "prefix p (CHR ''['' # cs)"
      "find (\<lambda>tok. prefix tok (CHR ''['' # cs)) placeholders = Some p"
      "delimited (drop (length p - 1) cs)"
      "drop (length p - 1) cs = [] \<or> (\<exists>d ds. drop (length p - 1) cs = d # ds \<and> \<not> token_char d)"
      by (rule delimited_bracketD)
    let ?r = "drop (length p - 1) cs"
    have IH: "replace_scan old new (fill f ?r) = fill ?g ?r"
      using "2.IH"(2)[of p] True p(3,4) by simp
    have ff: "fill f (c # cs) = f p @ fill f ?r" and fg: "fill ?g (c # cs) = ?g p @ fill ?g ?r"
      using True p(1,2) by (simp_all add: fill_token del: fill.simps)
    from p(5) show ?thesis
    proof
      assume "?r = []"
      then show ?thesis using ff fg by simp
    next
      assume "\<exists>d ds. ?r = d # ds \<and> \<not> token_char d"
      then obtain d ds where r: "?r = d # ds" and nt: "\<not> token_char d" by blast
      from nt old have dn: "d \<noteq> CHR ''[''" "d \<notin> set old" by (rule not_token_char_D)+
      have f1: "fill f ?r = d # fill f ds" and g1: "fill ?g ?r = d # fill ?g ds"
        using r dn(1) by (simp_all add: fill_Cons_other del: fill.simps)
      from IH f1 g1 dn(2) have tl: "replace_scan old new (fill f ds) = fill ?g ds"
        by (simp add: replace_scan_Cons_other del: replace_scan.simps)
      have "replace_scan old new (fill f (c # cs)) = replace_scan old new (f p @ d # fill f ds)"
        using ff f1 by simp
      also have "\<dots> = ?g p @ d # replace_scan old new (fill f ds)"
        using dn(2) by (rule replace_scan_break)
      also have "\<dots> = fill ?g (c # cs)" using tl fg g1 by simp
      finally show ?thesis .
    qed
  qed
qed

lemma fill_id: "fill (\<lambda>tok. tok) T = T"
proof (induction "\<lambda>tok::string. tok" T rule: fill.induct)
  case 1
  show ?case by simp
next
  case (2 c cs)
  show ?case
  proof (cases "find (\<lambda>tok. prefix tok (c # cs)) placeholders")
    case None
    with 2 show ?thesis by simp
  next
    case (Some p)
    then have p: "p \<in> set placeholders" "prefix p (c # cs)"
      using find_ph_SomeD by blast+
    from p(1) have "p \<noteq> []" by (rule ph_nonempty)
    with p(2) obtain r where "p = c # r" "prefix r cs"
      by (cases p) auto
    then have "p @ drop (length p - 1) cs = c # cs"
      by (auto simp: prefix_def)
    moreover from 2 Some
    have "fill (\<lambda>tok. tok) (drop (length p - 1) cs) = drop (length p - 1) cs" by simp
    ultimately show ?thesis using Some by simp
  qed
qed

lemma fill_cong:
  "(\<And>p. p \<in> set placeholders \<Longrightarrow> f p = g p) \<Longrightarrow> fill f T = fill g T"
proof (induction f T rule: fill.induct)
  case (1 f)
  show ?case by simp
next
  case (2 f c cs)
  show ?case
  proof (cases "find (\<lambda>tok. prefix tok (c # cs)) placeholders")
    case None
    with 2 show ?thesis by simp
  next
    case (Some p)
    then have p: "p \<in> set placeholders" using find_ph_SomeD by blast
    with 2 Some show ?thesis by simp
  qed
qed

lemma sublist_break:
  assumes "d \<notin> set tok"
  shows "sublist tok (X @ d # Y) \<longleftrightarrow> sublist tok X \<or> sublist tok Y"
proof
  assume "sublist tok (X @ d # Y)"
  then consider "sublist tok X" | "sublist tok (d # Y)"
    | xs1 xs2 where "tok = xs1 @ xs2" "suffix xs1 X" "prefix xs2 (d # Y)"
    by (auto simp: sublist_append)
  then show "sublist tok X \<or> sublist tok Y"
  proof cases
    case 1 then show ?thesis by simp
  next
    case 2
    then have "prefix tok (d # Y) \<or> sublist tok Y" by (simp add: sublist_Cons_right)
    then show ?thesis
    proof
      assume "prefix tok (d # Y)"
      with assms have "tok = []" by (cases tok) auto
      then show ?thesis by simp
    qed simp
  next
    case 3
    show ?thesis
    proof (cases xs2)
      case Nil
      with 3 show ?thesis by auto
    next
      case (Cons u us)
      with 3 have "u = d" by simp
      with Cons 3 assms show ?thesis by simp
    qed
  qed
next
  assume "sublist tok X \<or> sublist tok Y"
  then show "sublist tok (X @ d # Y)"
    by (auto simp: sublist_append sublist_Cons_right)
qed

lemma sublist_Cons_nohd:
  "tok = h # r \<Longrightarrow> c \<noteq> h \<Longrightarrow> sublist tok (c # X) \<longleftrightarrow> sublist tok X"
  by (auto simp: sublist_Cons_right)

lemma ph_sublist_free_all:
  "list_all (\<lambda>p. list_all (\<lambda>q. sublist p q \<longrightarrow> p = q) placeholders) placeholders"
  by (simp add: placeholders_def sublist_code(3))

lemma ph_sublist_free:
  "p \<in> set placeholders \<Longrightarrow> q \<in> set placeholders \<Longrightarrow> sublist p q \<longleftrightarrow> p = q"
  using ph_sublist_free_all by (auto simp: list_all_iff)

lemma ph_split:
  assumes "p \<in> set placeholders" "prefix p (c # cs)"
  shows "c # cs = p @ drop (length p - 1) cs"
proof -
  from assms(1) have "p \<noteq> []" by (rule ph_nonempty)
  with assms(2) obtain r where "p = c # r" "prefix r cs" by (cases p) auto
  then show ?thesis by (auto simp: prefix_def)
qed

lemma sublist_fill:
  assumes tok: "tok \<in> set placeholders"
  shows "delimited T \<Longrightarrow>
         sublist tok (fill f T) \<longleftrightarrow> (\<exists>p\<in>set placeholders. sublist p T \<and> sublist tok (f p))"
proof (induction T rule: delimited.induct)
  case 1
  have "\<And>p. p \<in> set placeholders \<Longrightarrow> \<not> sublist p []"
    using ph_nonempty by auto
  with tok show ?case by auto
next
  case (2 c cs)
  from tok obtain r where tokr: "tok = CHR ''['' # r" using ph_bracket by blast
  have other: "sublist q (e # X) \<longleftrightarrow> sublist q X"
    if "q \<in> set placeholders" "e \<noteq> CHR ''[''" for q e X
  proof -
    from that(1) obtain r' where "q = CHR ''['' # r'" using ph_bracket by blast
    with that(2) show ?thesis by (simp add: sublist_Cons_nohd)
  qed
  show ?case
  proof (cases "c = CHR ''[''")
    case False
    with "2.prems" have "delimited cs" by simp
    with "2.IH"(1) False
    have "sublist tok (fill f cs) \<longleftrightarrow> (\<exists>p\<in>set placeholders. sublist p cs \<and> sublist tok (f p))"
      by simp
    with False tok show ?thesis
      by (simp add: fill_Cons_other other del: fill.simps)
  next
    case True
    with "2.prems" have d: "delimited (CHR ''['' # cs)" by simp
    from d obtain q where q: "q \<in> set placeholders" "prefix q (CHR ''['' # cs)"
      "find (\<lambda>tok. prefix tok (CHR ''['' # cs)) placeholders = Some q"
      "delimited (drop (length q - 1) cs)"
      "drop (length q - 1) cs = [] \<or> (\<exists>d ds. drop (length q - 1) cs = d # ds \<and> \<not> token_char d)"
      by (rule delimited_bracketD)
    let ?r = "drop (length q - 1) cs"
    have IH: "sublist tok (fill f ?r) \<longleftrightarrow> (\<exists>p\<in>set placeholders. sublist p ?r \<and> sublist tok (f p))"
      using "2.IH"(2)[of q] True q(3,4) by simp
    have T: "c # cs = q @ ?r" using ph_split[OF q(1)] q(2) True by simp
    have ff: "fill f (c # cs) = f q @ fill f ?r"
      using True q(1,2) by (simp add: fill_token del: fill.simps)
    from q(5) show ?thesis
    proof
      assume r: "?r = []"
      with T have "c # cs = q" by simp
      moreover have "fill f (c # cs) = f q" using ff r by simp
      ultimately show ?thesis using q(1) ph_sublist_free by auto
    next
      assume "\<exists>d ds. ?r = d # ds \<and> \<not> token_char d"
      then obtain d ds where r: "?r = d # ds" and nt: "\<not> token_char d" by blast
      have dn: "d \<noteq> CHR ''[''" using nt token_char_bracket by auto
      have dp: "d \<notin> set p" if "p \<in> set placeholders" for p
        using nt that ph_chars by blast
      have f1: "fill f ?r = d # fill f ds"
        using r dn by (simp add: fill_Cons_other del: fill.simps)
      have "sublist tok (fill f (c # cs)) \<longleftrightarrow> sublist tok (f q) \<or> sublist tok (fill f ds)"
        using ff f1 dp[OF tok] by (simp add: sublist_break)
      also have "sublist tok (fill f ds) \<longleftrightarrow> sublist tok (fill f ?r)"
        using f1 other[OF tok dn] by simp
      also note IH
      finally have L: "sublist tok (fill f (c # cs)) \<longleftrightarrow>
          sublist tok (f q) \<or> (\<exists>p\<in>set placeholders. sublist p ?r \<and> sublist tok (f p))" .
      have R: "sublist p (c # cs) \<longleftrightarrow> p = q \<or> sublist p ?r" if "p \<in> set placeholders" for p
      proof -
        have "sublist p (c # cs) \<longleftrightarrow> sublist p q \<or> sublist p ds"
          using T r dp[OF that] by (simp add: sublist_break)
        also have "sublist p ds \<longleftrightarrow> sublist p ?r" using r other[OF that dn] by simp
        finally show ?thesis using ph_sublist_free[OF that q(1)] by simp
      qed
      show ?thesis unfolding L using R q(1) by blast
    qed
  qed
qed

lemma delimited_append:
  "delimited l \<Longrightarrow> l = [] \<or> \<not> token_char (last l) \<Longrightarrow> delimited b \<Longrightarrow> delimited (l @ b)"
proof (induction l rule: delimited.induct)
  case 1
  then show ?case by simp
next
  case (2 c cs)
  show ?case
  proof (cases "c = CHR ''[''")
    case False
    with "2.prems" have "delimited cs" "cs = [] \<or> \<not> token_char (last cs)"
      by (auto split: if_splits)
    with "2.IH"(1) False "2.prems"(3) have "delimited (cs @ b)" by simp
    with False show ?thesis by simp
  next
    case True
    with "2.prems" have d: "delimited (CHR ''['' # cs)" by simp
    from d obtain q where q: "q \<in> set placeholders" "prefix q (CHR ''['' # cs)"
      "find (\<lambda>tok. prefix tok (CHR ''['' # cs)) placeholders = Some q"
      "delimited (drop (length q - 1) cs)"
      "drop (length q - 1) cs = [] \<or> (\<exists>d ds. drop (length q - 1) cs = d # ds \<and> \<not> token_char d)"
      by (rule delimited_bracketD)
    let ?r = "drop (length q - 1) cs"
    have T: "c # cs = q @ ?r" using ph_split[OF q(1)] q(2) True by simp
    from q(1) have qne: "q \<noteq> []" by (rule ph_nonempty)
    have lastq: "token_char (last q)" using ph_chars[OF q(1)] qne by simp
    have rne: "?r \<noteq> []"
    proof
      assume "?r = []"
      with T have "last (c # cs) = last q" by simp
      with lastq "2.prems"(2) show False by simp
    qed
    with q(5) obtain d ds where r: "?r = d # ds" and nt: "\<not> token_char d" by blast
    have "last (c # cs) = last ?r" using T rne by (metis last_appendR)
    with "2.prems"(2) have lr: "?r = [] \<or> \<not> token_char (last ?r)" by simp
    have IH: "delimited (?r @ b)"
      using "2.IH"(2)[of q] True q(3,4) lr "2.prems"(3) by simp
    have pre: "prefix q (CHR ''['' # cs @ b)"
      using q(2) prefix_prefix[of q "CHR ''['' # cs" b] by simp
    have len: "length q - 1 \<le> length cs"
      using q(2) qne by (auto dest!: prefix_length_le)
    have dr: "drop (length q - 1) (cs @ b) = ?r @ b" using len by simp
    have "delimited (CHR ''['' # cs @ b) =
       ((case ?r @ b of [] \<Rightarrow> True | d # ds \<Rightarrow> \<not> token_char d) \<and> delimited (?r @ b))"
      using delimited_token[OF q(1) pre] dr by simp
    with IH r nt True show ?thesis by simp
  qed
qed

lemma delimited_line:
  "delimited l \<and> l \<noteq> [] \<and> \<not> token_char (last l) \<Longrightarrow> delimited b \<Longrightarrow> delimited (l @ b)"
  using delimited_append by blast

lemma delimited_PROMPT_TEMPLATE: "delimited PROMPT_TEMPLATE"
  unfolding PROMPT_TEMPLATE_def
  by (intro delimited_line) (simp_all add: placeholders_def token_char_def)

lemma mem_placeholders:
  "''[MEETING_TRANSCRIPT_TEXT]'' \<in> set placeholders"
  "''[MEETING_DATE]'' \<in> set placeholders"
  "''[MEETING_BODY]'' \<in> set placeholders"
  "''[REPORT_TYPE]'' \<in> set placeholders"
  "''[SPECIFIC_TOPIC]'' \<in> set placeholders"
  "''[OPTIONAL_SUPPORTING_DOCS]'' \<in> set placeholders"
  "''[STYLE_GUIDELINES]'' \<in> set placeholders"
  by (simp_all add: placeholders_def)

lemma py_replace_ph:
  "old \<in> set placeholders \<Longrightarrow> py_replace old new s = replace_scan old new s"
  using ph_nonempty by (auto simp: py_replace_def)

lemma py_replace_fill:
  "old \<in> set placeholders \<Longrightarrow> delimited T \<Longrightarrow>
   py_replace old new (fill f T) = fill (\<lambda>tok. py_replace old new (f tok)) T"
  by (simp add: py_replace_ph fill_replace_step)

lemma render_fill:
  assumes "delimited T"
  shows "render T tr d b rt tp docs sty = fill (\<lambda>tok. render tok tr d b rt tp docs sty) T"
proof -
  have "render T tr d b rt tp docs sty = render (fill (\<lambda>tok. tok) T) tr d b rt tp docs sty"
    by (simp add: fill_id)
  also have "\<dots> = fill (\<lambda>tok. render tok tr d b rt tp docs sty) T"
    unfolding render_def Let_def
    by (simp only: py_replace_fill[OF _ assms] mem_placeholders)
  finally show ?thesis .
qed

lemma py_replace_self: "old \<in> set placeholders \<Longrightarrow> py_replace old new old = new"
  using ph_nonempty by (simp add: py_replace_ph replace_scan_self)

lemma py_replace_absent: "old \<in> set placeholders \<Longrightarrow> \<not> sublist old s \<Longrightarrow> py_replace old new s = s"
  by (simp add: py_replace_ph replace_scan_absent)

lemma py_replace_other:
  "old \<in> set placeholders \<Longrightarrow> q \<in> set placeholders \<Longrightarrow> old \<noteq> q \<Longrightarrow> py_replace old new q = q"
  by (simp add: py_replace_absent ph_sublist_free)

section \<open>What becomes of each placeholder\<close>

lemma render_transcript:
  "render ''[MEETING_TRANSCRIPT_TEXT]'' tr d b rt tp docs sty =
     py_replace ''[STYLE_GUIDELINES]'' (or_none_provided sty)
       (py_replace ''[OPTIONAL_SUPPORTING_DOCS]'' (or_none_provided docs)
         (py_replace ''[SPECIFIC_TOPIC]'' tp
           (py_replace ''[REPORT_TYPE]'' rt
             (py_replace ''[MEETING_BODY]'' b
               (py_replace ''[MEETING_DATE]'' d tr)))))"
  by (simp add: render_def or_none_provided_def py_replace_self mem_placeholders)

lemma render_date:
  "render ''[MEETING_DATE]'' tr d b rt tp docs sty =
     py_replace ''[STYLE_GUIDELINES]'' (or_none_provided sty)
       (py_replace ''[OPTIONAL_SUPPORTING_DOCS]'' (or_none_provided docs)
         (py_replace ''[SPECIFIC_TOPIC]'' tp
           (py_replace ''[REPORT_TYPE]'' rt
             (py_replace ''[MEETING_BODY]'' b d))))"
  by (simp add: render_def or_none_provided_def py_replace_self py_replace_other mem_placeholders)

lemma render_body:
  "render ''[MEETING_BODY]'' tr d b rt tp docs sty =
     py_replace ''[STYLE_GUIDELINES]'' (or_none_provided sty)
       (py_replace ''[OPTIONAL_SUPPORTING_DOCS]'' (or_none_provided docs)
         (py_replace ''[SPECIFIC_TOPIC]'' tp
           (py_replace ''[REPORT_TYPE]'' rt b)))"
  by (simp add: render_def or_none_provided_def py_replace_self py_replace_other mem_placeholders)

lemma render_report_type:
  "render ''[REPORT_TYPE]'' tr d b rt tp docs sty =
     py_replace ''[STYLE_GUIDELINES]'' (or_none_provided sty)
       (py_replace ''[OPTIONAL_SUPPORTING_DOCS]'' (or_none_provided docs)
         (py_replace ''[SPECIFIC_TOPIC]'' tp rt))"
  by (simp add: render_def or_none_provided_def py_replace_self py_replace_other mem_placeholders)

lemma render_topic:
  "render ''[SPECIFIC_TOPIC]'' tr d b rt tp docs sty =
     py_replace ''[STYLE_GUIDELINES]'' (or_none_provided sty)
       (py_replace ''[OPTIONAL_SUPPORTING_DOCS]'' (or_none_provided docs) tp)"
  by (simp add: render_def or_none_provided_def py_replace_self py_replace_other mem_placeholders)

lemma render_docs:
  "render ''[OPTIONAL_SUPPORTING_DOCS]'' tr d b rt tp docs sty =
     py_replace ''[STYLE_GUIDELINES]'' (or_none_provided sty) (or_none_provided docs)"
  by (simp add: render_def or_none_provided_def py_replace_self py_replace_other mem_placeholders)

lemma render_style:
  "render ''[STYLE_GUIDELINES]'' tr d b rt tp docs sty = or_none_provided sty"
  by (simp add: render_def or_none_provided_def py_replace_self py_replace_other mem_placeholders)

lemmas render_slots =
  render_transcript render_date render_body render_report_type render_topic render_docs
  render_style

lemma token_free_default: "token_free ''None provided.''"
  by (simp add: token_free_def placeholders_def sublist_code(3))

lemma no_later_token_default: "no_later_token k ''None provided.''"
  using token_free_default
  by (auto simp: token_free_def no_later_token_def list_all_iff dest: in_set_dropD)

lemma no_later_token_or_none:
  "no_later_token k v \<Longrightarrow> no_later_token k (or_none_provided v)"
  by (simp add: or_none_provided_def no_later_token_default)


lemma render_eq_fields:
  assumes "no_later_token 1 tr" "no_later_token 2 d" "no_later_token 3 b"
    "no_later_token 4 rt" "no_later_token 5 tp" "no_later_token 6 docs"
    and p: "p \<in> set placeholders"
  shows "render p tr d b rt tp docs sty = field_values tr d b rt tp docs sty p"
proof -
  note nl = assms(1-5) no_later_token_or_none[OF assms(6)]
  have 1: "render ''[MEETING_TRANSCRIPT_TEXT]'' tr d b rt tp docs sty = tr"
    using nl(1)
    by (simp add: render_transcript no_later_token_def placeholders_def py_replace_absent
        mem_placeholders)
  have 2: "render ''[MEETING_DATE]'' tr d b rt tp docs sty = d"
    using nl(2)
    by (simp add: render_date no_later_token_def placeholders_def py_replace_absent
        mem_placeholders)
  have 3: "render ''[MEETING_BODY]'' tr d b rt tp docs sty = b"
    using nl(3)
    by (simp add: render_body no_later_token_def placeholders_def py_replace_absent
        mem_placeholders)
  have 4: "render ''[REPORT_TYPE]'' tr d b rt tp docs sty = rt"
    using nl(4)
    by (simp add: render_report_type no_later_token_def placeholders_def py_replace_absent
        mem_placeholders)
  have 5: "render ''[SPECIFIC_TOPIC]'' tr d b rt tp docs sty = tp"
    using nl(5)
    by (simp add: render_topic no_later_token_def placeholders_def py_replace_absent
        mem_placeholders)
  have 6: "render ''[OPTIONAL_SUPPORTING_DOCS]'' tr d b rt tp docs sty = or_none_provided docs"
    using nl(6)
    by (simp add: render_docs no_later_token_def placeholders_def py_replace_absent
        mem_placeholders)
  have 7: "render ''[STYLE_GUIDELINES]'' tr d b rt tp docs sty = or_none_provided sty"
    by (simp add: render_style)
  have "list_all (\<lambda>p. render p tr d b rt tp docs sty = field_values tr d b rt tp docs sty p) placeholders"
    by (simp add: placeholders_def field_values_def 1 2 3 4 5 6 7)
  with p show ?thesis by (simp add: list_all_iff)
qed

lemma sublist_ph_Cons_other:
  assumes "q \<in> set placeholders" "e \<noteq> CHR ''[''"
  shows "sublist q (e # X) \<longleftrightarrow> sublist q X"
proof -
  from assms(1) obtain r where "q = CHR ''['' # r" using ph_bracket by blast
  with assms(2) show ?thesis by (simp add: sublist_Cons_nohd)
qed

lemma sublist_ph_token_rest:
  assumes p: "p \<in> set placeholders" and q: "q \<in> set placeholders"
    and r: "r = [] \<or> (\<exists>d ds. r = d # ds \<and> \<not> token_char d)"
  shows "sublist p (q @ r) \<longleftrightarrow> p = q \<or> sublist p r"
proof (cases r)
  case Nil
  with p q show ?thesis using ph_sublist_free ph_nonempty by auto
next
  case (Cons d ds)
  with r have nt: "\<not> token_char d" by simp
  then have dn: "d \<noteq> CHR ''[''" "d \<notin> set p"
    using token_char_bracket ph_chars[OF p] by auto
  have "sublist p (q @ d # ds) \<longleftrightarrow> sublist p q \<or> sublist p ds"
    using dn(2) by (rule sublist_break)
  also have "sublist p ds \<longleftrightarrow> sublist p (d # ds)"
    using sublist_ph_Cons_other[OF p dn(1)] by simp
  finally show ?thesis using Cons ph_sublist_free[OF p q] by simp
qed

lemma sublist_fill_value:
  assumes p: "p \<in> set placeholders"
  shows "delimited T \<Longrightarrow> sublist p T \<Longrightarrow> sublist (f p) (fill f T)"
proof (induction T rule: delimited.induct)
  case 1
  with p show ?case using ph_nonempty by auto
next
  case (2 c cs)
  show ?case
  proof (cases "c = CHR ''[''")
    case False
    with "2.prems" have "delimited cs" "sublist p cs"
      using sublist_ph_Cons_other[OF p] by simp_all
    with "2.IH"(1) False have "sublist (f p) (fill f cs)" by simp
    with False show ?thesis
      by (simp add: fill_Cons_other sublist_Cons_right del: fill.simps)
  next
    case True
    with "2.prems" have d: "delimited (CHR ''['' # cs)" by simp
    from d obtain q where q: "q \<in> set placeholders" "prefix q (CHR ''['' # cs)"
      "find (\<lambda>tok. prefix tok (CHR ''['' # cs)) placeholders = Some q"
      "delimited (drop (length q - 1) cs)"
      "drop (length q - 1) cs = [] \<or> (\<exists>d ds. drop (length q - 1) cs = d # ds \<and> \<not> token_char d)"
      by (rule delimited_bracketD)
    let ?r = "drop (length q - 1) cs"
    have T: "c # cs = q @ ?r" using ph_split[OF q(1)] q(2) True by simp
    have ff: "fill f (c # cs) = f q @ fill f ?r"
      using True q(1,2) by (simp add: fill_token del: fill.simps)
    from "2.prems"(2) T have "p = q \<or> sublist p ?r"
      using sublist_ph_token_rest[OF p q(1) q(5)] by simp
    then show ?thesis
    proof
      assume "p = q"
      then show ?thesis unfolding ff by simp
    next
      assume "sublist p ?r"
      with "2.IH"(2)[of q] True q(3,4) have "sublist (f p) (fill f ?r)" by simp
      then show ?thesis unfolding ff by (simp add: sublist_append)
    qed
  qed
qed

lemma sublist_in_head: "sublist x a \<Longrightarrow> sublist x (a @ b)"
  by (simp add: sublist_append)

lemma sublist_in_tail: "sublist x b \<Longrightarrow> sublist x (a @ b)"
  by (simp add: sublist_append)

lemma transcript_in_template: "sublist ''[MEETING_TRANSCRIPT_TEXT]'' PROMPT_TEMPLATE"
  unfolding PROMPT_TEMPLATE_def
  by ((rule sublist_in_head, (simp add: sublist_code(3); fail)) | rule sublist_in_tail)+

lemma date_in_template: "sublist ''[MEETING_DATE]'' PROMPT_TEMPLATE"
  unfolding PROMPT_TEMPLATE_def
  by ((rule sublist_in_head, (simp add: sublist_code(3); fail)) | rule sublist_in_tail)+

lemma body_in_template: "sublist ''[MEETING_BODY]'' PROMPT_TEMPLATE"
  unfolding PROMPT_TEMPLATE_def
  by ((rule sublist_in_head, (simp add: sublist_code(3); fail)) | rule sublist_in_tail)+

lemma report_type_in_template: "sublist ''[REPORT_TYPE]'' PROMPT_TEMPLATE"
  unfolding PROMPT_TEMPLATE_def
  by ((rule sublist_in_head, (simp add: sublist_code(3); fail)) | rule sublist_in_tail)+

lemma topic_in_template: "sublist ''[SPECIFIC_TOPIC]'' PROMPT_TEMPLATE"
  unfolding PROMPT_TEMPLATE_def
  by ((rule sublist_in_head, (simp add: sublist_code(3); fail)) | rule sublist_in_tail)+

lemma docs_in_template: "sublist ''[OPTIONAL_SUPPORTING_DOCS]'' PROMPT_TEMPLATE"
  unfolding PROMPT_TEMPLATE_def
  by ((rule sublist_in_head, (simp add: sublist_code(3); fail)) | rule sublist_in_tail)+

lemma style_in_template: "sublist ''[STYLE_GUIDELINES]'' PROMPT_TEMPLATE"
  unfolding PROMPT_TEMPLATE_def
  by ((rule sublist_in_head, (simp add: sublist_code(3); fail)) | rule sublist_in_tail)+

lemma placeholders_in_template: "list_all (\<lambda>p. sublist p PROMPT_TEMPLATE) placeholders"
  by (simp add: placeholders_def transcript_in_template date_in_template body_in_template
      report_type_in_template topic_in_template docs_in_template style_in_template)

section \<open>The document as a filled template\<close>

lemma document_fill: "document st = fill (slot st) PROMPT_TEMPLATE"
  unfolding document_def slot_def by (rule render_fill[OF delimited_PROMPT_TEMPLATE])

lemma output_fill:
  "\<not> required_missing st \<Longrightarrow>
   wtext (output_text_area (generate_prompt st)) = fill (slot st) PROMPT_TEMPLATE"
  by (simp add: generate_prompt_rendered document_fill)

lemma nested_token_example_ok: "\<not> required_missing nested_token_example"
  by (simp add: required_missing_def nested_token_example_def comprehensive_example_def
      spec_example_def strip_def isspace_def text_get_def)

lemma nested_token_slots:
  "slot nested_token_example ''[MEETING_TRANSCRIPT_TEXT]'' = ''see 2024-05-01''"
  "slot nested_token_example ''[MEETING_DATE]'' = ''2024-05-01''"
  "slot nested_token_example ''[MEETING_BODY]'' = ''City Council''"
  "slot nested_token_example ''[REPORT_TYPE]'' = ''Comprehensive''"
  "slot nested_token_example ''[SPECIFIC_TOPIC]'' = ''N/A''"
  "slot nested_token_example ''[OPTIONAL_SUPPORTING_DOCS]'' = ''None provided.''"
  "slot nested_token_example ''[STYLE_GUIDELINES]'' = ''None provided.''"
  by (simp_all add: slot_def nested_token_example_def comprehensive_example_def
      spec_example_def strip_def isspace_def text_get_def render_slots or_none_provided_def
      py_replace_def)

section \<open>Values without later placeholders\<close>

lemma render_transcript_verbatim:
  "no_later_token 1 tr \<Longrightarrow> render ''[MEETING_TRANSCRIPT_TEXT]'' tr d b rt tp docs sty = tr"
  by (simp add: render_transcript no_later_token_def placeholders_def py_replace_absent
      mem_placeholders)

lemma render_date_verbatim:
  "no_later_token 2 d \<Longrightarrow> render ''[MEETING_DATE]'' tr d b rt tp docs sty = d"
  by (simp add: render_date no_later_token_def placeholders_def py_replace_absent
      mem_placeholders)

lemma render_body_verbatim:
  "no_later_token 3 b \<Longrightarrow> render ''[MEETING_BODY]'' tr d b rt tp docs sty = b"
  by (simp add: render_body no_later_token_def placeholders_def py_replace_absent
      mem_placeholders)

lemma render_report_type_verbatim:
  "no_later_token 4 rt \<Longrightarrow> render ''[REPORT_TYPE]'' tr d b rt tp docs sty = rt"
  by (simp add: render_report_type no_later_token_def placeholders_def py_replace_absent
      mem_placeholders)

lemma render_topic_verbatim:
  "no_later_token 5 tp \<Longrightarrow> render ''[SPECIFIC_TOPIC]'' tr d b rt tp docs sty = tp"
  by (simp add: render_topic no_later_token_def placeholders_def py_replace_absent
      mem_placeholders)

lemma render_docs_verbatim:
  assumes "no_later_token 6 docs"
  shows "render ''[OPTIONAL_SUPPORTING_DOCS]'' tr d b rt tp docs sty = or_none_provided docs"
  using no_later_token_or_none[OF assms]
  by (simp add: render_docs no_later_token_def placeholders_def py_replace_absent
      mem_placeholders)

lemma slot_in_document:
  assumes "p \<in> set placeholders"
  shows "sublist (render p tr d b rt tp docs sty) (render PROMPT_TEMPLATE tr d b rt tp docs sty)"
proof -
  from assms placeholders_in_template have "sublist p PROMPT_TEMPLATE"
    by (simp add: list_all_iff)
  from sublist_fill_value[OF assms delimited_PROMPT_TEMPLATE this,
      of "\<lambda>tok. render tok tr d b rt tp docs sty"]
  show ?thesis by (simp add: render_fill[OF delimited_PROMPT_TEMPLATE, symmetric])
qed

section \<open>Separated templates\<close>

lemma token_free_Nil: "token_free []"
  using ph_nonempty by (auto simp: token_free_def list_all_iff)

lemma run_ok_Nil [simp]: "run_ok []"
  by (simp add: run_ok_def token_free_Nil)

















section \<open>Validation\<close>

text \<open>
  C3.  When a required input is empty after trimming (transcript, date or body; or the
  topic while the report type is "Topic-Specific"), \<open>generate_prompt\<close> renders nothing:
  the state it returns is the state it was given with one "Input Error" dialog added, so
  the output area still shows what it showed before.
\<close>

theorem missing_required_field_skips_rendering:
  assumes "required_missing st"
  shows "(\<exists>msg. generate_prompt st =
            st\<lparr>messagebox := messagebox st @ [showerror ''Input Error'' msg]\<rparr>) \<and>
         output_text_area (generate_prompt st) = output_text_area st"
  using generate_prompt_error[OF assms] by (auto simp: show_message_def)

theorem missing_required_field_skips_rendering_witness:
  "required_missing spec_example \<and>
   generate_prompt spec_example =
     spec_example\<lparr>messagebox :=
       [showerror ''Input Error''
          ''Specific Topic cannot be empty when Report Type is 'Topic-Specific'.'']\<rparr> \<and>
   output_text_area (generate_prompt spec_example) =
     \<lparr>wtext = ''earlier output'', wstate = DISABLED\<rparr> \<and>
   required_missing (comprehensive_example\<lparr>date_entry := [CHR 0xA0, CHR 0x20]\<rparr>)"
proof -
  have n: "required_missing (comprehensive_example\<lparr>date_entry := [CHR 0xA0, CHR 0x20]\<rparr>)"
    by (simp add: required_missing_def strip_def isspace_def)
  have r: "required_missing spec_example"
    by (simp add: required_missing_def spec_example_def strip_def)
  have g: "generate_prompt spec_example =
     spec_example\<lparr>messagebox :=
       [showerror ''Input Error''
          ''Specific Topic cannot be empty when Report Type is 'Topic-Specific'.'']\<rparr>"
    by (simp add: generate_prompt_def spec_example_def strip_def isspace_def text_get_def
        show_message_def Let_def)
  from missing_required_field_skips_rendering[OF r]
  have "output_text_area (generate_prompt spec_example) = output_text_area spec_example"
    by simp
  then show ?thesis using r g n by (simp add: spec_example_def)
qed

section \<open>Determinism\<close>

text \<open>
  C8.  The document depends on the seven inputs only: two states with the same inputs,
  whatever their output areas and dialogs, get the same output area from a render, and
  rendering a second time changes nothing.
\<close>

theorem rendering_deterministic:
  assumes "inputs st1 = inputs st2" "\<not> required_missing st1"
  shows "output_text_area (generate_prompt st1) = output_text_area (generate_prompt st2) \<and>
         generate_prompt (generate_prompt st1) = generate_prompt st1"
proof -
  from assms have m2: "\<not> required_missing st2" using required_missing_inputs by blast
  have i: "inputs (generate_prompt st1) = inputs st1"
    using assms(2) by (simp add: generate_prompt_rendered inputs_def)
  then have m1': "\<not> required_missing (generate_prompt st1)"
    using assms(2) required_missing_inputs by blast
  have "document (generate_prompt st1) = document st1" using i by (rule document_inputs)
  then have "generate_prompt (generate_prompt st1) = generate_prompt st1"
    using m1' assms(2) by (simp add: generate_prompt_rendered)
  moreover have "output_text_area (generate_prompt st1) = output_text_area (generate_prompt st2)"
    using assms m2 document_inputs[OF assms(1)] by (simp add: generate_prompt_rendered)
  ultimately show ?thesis by simp
qed

theorem rendering_deterministic_witness:
  "inputs comprehensive_example =
     inputs (comprehensive_example
       \<lparr>output_text_area := \<lparr>wtext = ''something else'', wstate = NORMAL\<rparr>,
        messagebox := [showinfo ''File Loaded'' ''x'']\<rparr>) \<and>
   \<not> required_missing comprehensive_example \<and>
   output_text_area (generate_prompt comprehensive_example) =
     output_text_area (generate_prompt (comprehensive_example
       \<lparr>output_text_area := \<lparr>wtext = ''something else'', wstate = NORMAL\<rparr>,
        messagebox := [showinfo ''File Loaded'' ''x'']\<rparr>)) \<and>
   generate_prompt (generate_prompt comprehensive_example) =
     generate_prompt comprehensive_example"
proof -
  have i: "inputs comprehensive_example =
     inputs (comprehensive_example
       \<lparr>output_text_area := \<lparr>wtext = ''something else'', wstate = NORMAL\<rparr>,
        messagebox := [showinfo ''File Loaded'' ''x'']\<rparr>)"
    by (simp add: inputs_def)
  from rendering_deterministic[OF i comprehensive_example_ok] i comprehensive_example_ok
  show ?thesis by simp
qed

section \<open>Loading a single file\<close>

text \<open>
  C9.  When the file chosen for the transcript or for the style guidelines cannot be
  read, the load stops at an error dialog: the state is the one before with that dialog
  added, and the text area the file was meant for keeps its content.
\<close>

theorem failed_single_load_keeps_content:
  assumes "filepath \<noteq> []" "fs filepath = Inl e"
  shows "load_transcript_file filepath fs st =
           st\<lparr>messagebox := messagebox st @
             [showerror ''Error Reading File''
                (''Failed to read file: '' @ filepath @ ''\<newline>'' @ e)]\<rparr> \<and>
         load_style_file filepath fs st =
           st\<lparr>messagebox := messagebox st @
             [showerror ''Error Reading File''
                (''Failed to read file: '' @ filepath @ ''\<newline>'' @ e)]\<rparr> \<and>
         transcript_text_area (load_transcript_file filepath fs st) = transcript_text_area st \<and>
         style_text_area (load_style_file filepath fs st) = style_text_area st"
  using assms
  by (simp add: load_transcript_file_def load_style_file_def load_file_content_def
      show_message_def)

theorem failed_single_load_keeps_content_witness:
  "transcript_text_area
     (load_transcript_file ''notes.txt'' (\<lambda>p. Inl ''No such file or directory'') spec_example) =
     \<lparr>wtext = ''...'', wstate = NORMAL\<rparr> \<and>
   messagebox
     (load_transcript_file ''notes.txt'' (\<lambda>p. Inl ''No such file or directory'') spec_example) =
     [showerror ''Error Reading File''
        ''Failed to read file: notes.txt\<newline>No such file or directory'']"
  using failed_single_load_keeps_content
    [of "''notes.txt''" "\<lambda>p. Inl ''No such file or directory''" "''No such file or directory''"
        spec_example]
  by (simp add: spec_example_def)

section \<open>Appending several files\<close>

text \<open>
  C6.  When every selected file can be read, the supporting documents end up as the text
  that was there followed, in the order of selection, by one separator and then the file's
  content for each file.  The separator is a blank line, the line
  "--- Supporting Doc: NAME ---" with the base name of the file, and another blank line.
\<close>

theorem append_in_selection_order:
  assumes "map fs filepaths = map Inr contents"
  shows "wtext (docs_text_area (load_and_append_docs_files filepaths fs st)) =
           wtext (docs_text_area st) @
           concat (map (\<lambda>(filepath, content).
                          ''\<newline>\<newline>--- Supporting Doc: '' @ basename filepath @
                          '' ---\<newline>\<newline>'' @ content)
                     (zip filepaths contents))"
  using appended_all_readable[OF assms]
  by (simp add: load_and_append_result separator_def)

theorem append_in_selection_order_witness:
  "map two_files [''/home/clerk/agenda.txt'', ''minutes.md''] = map Inr [''X'', ''Y''] \<and>
   wtext (docs_text_area
     (load_and_append_docs_files [''/home/clerk/agenda.txt'', ''minutes.md''] two_files
        spec_example)) =
     ''\<newline>\<newline>--- Supporting Doc: agenda.txt ---\<newline>\<newline>X'' @
     ''\<newline>\<newline>--- Supporting Doc: minutes.md ---\<newline>\<newline>Y''"
proof -
  have m: "map two_files [''/home/clerk/agenda.txt'', ''minutes.md''] = map Inr [''X'', ''Y'']"
    by (simp add: two_files_def)
  from append_in_selection_order[OF m, of spec_example] m show ?thesis
    by (simp add: spec_example_def basename_def)
qed

text \<open>
  C7, as stated, fails when no file of the batch can be read: the only dialog is the
  warning, and no summary follows.
\<close>

theorem no_summary_when_every_read_fails:
  "messagebox (load_and_append_docs_files [''missing.txt''] two_files spec_example) =
     [showwarning ''Error Reading File''
        ''Failed to read file: missing.txt\<newline>No such file or directory\<newline>Skipping this file.'']"
  by (simp add: load_and_append_docs_files_def two_files_def spec_example_def show_message_def
      text_config_def)

text \<open>
  C7, amended.  A file that cannot be read gets its own warning and adds nothing to the
  text; the files after it are still read.  A summary with the number of files read follows
  the batch when that number is positive, and no summary is shown otherwise.
\<close>

theorem failed_reads_skipped_and_counted:
  "wtext (docs_text_area (load_and_append_docs_files filepaths fs st)) =
     wtext (docs_text_area st) @ appended fs filepaths \<and>
   messagebox (load_and_append_docs_files filepaths fs st) =
     messagebox st @ read_warnings fs filepaths @
       (if loaded_count fs filepaths > 0
        then [showinfo ''Files Appended''
                (''Successfully appended content from '' @
                 str_nat (loaded_count fs filepaths) @ '' file(s).'')]
        else [])"
  by (simp add: load_and_append_result appended_def read_warnings_def loaded_count_def)

theorem failed_reads_skipped_and_counted_witness:
  "wtext (docs_text_area
     (load_and_append_docs_files [''missing.txt'', ''minutes.md''] two_files spec_example)) =
     separator ''minutes.md'' @ ''Y'' \<and>
   messagebox
     (load_and_append_docs_files [''missing.txt'', ''minutes.md''] two_files spec_example) =
     [showwarning ''Error Reading File''
        ''Failed to read file: missing.txt\<newline>No such file or directory\<newline>Skipping this file.'',
      showinfo ''Files Appended'' ''Successfully appended content from 1 file(s).'']"
  using failed_reads_skipped_and_counted[of "[''missing.txt'', ''minutes.md'']" two_files spec_example]
  by (simp add: appended_def read_warnings_def loaded_count_def two_files_def spec_example_def
      basename_def str_nat.simps)

section \<open>The order of the replacements\<close>

text \<open>
  C10.  \<open>render\<close> is the seven replacements in the order transcript, date, body, report
  type, topic, supporting documents, style guidelines, each over the whole text so far.
  On the program's template the result is the template with every placeholder replaced by
  what the replacements make of that placeholder alone: the value of its field, on which
  all the later replacements have then been run.  So a placeholder token inside the value
  of an earlier field is replaced by the later step.
\<close>

theorem later_steps_rescan_earlier_values:
  "render T tr d b rt tp docs sty =
     py_replace ''[STYLE_GUIDELINES]'' (or_none_provided sty)
       (py_replace ''[OPTIONAL_SUPPORTING_DOCS]'' (or_none_provided docs)
         (py_replace ''[SPECIFIC_TOPIC]'' tp
           (py_replace ''[REPORT_TYPE]'' rt
             (py_replace ''[MEETING_BODY]'' b
               (py_replace ''[MEETING_DATE]'' d
                 (py_replace ''[MEETING_TRANSCRIPT_TEXT]'' tr T)))))) \<and>
   render PROMPT_TEMPLATE tr d b rt tp docs sty =
     fill (\<lambda>tok. render tok tr d b rt tp docs sty) PROMPT_TEMPLATE \<and>
   render ''[MEETING_TRANSCRIPT_TEXT]'' tr d b rt tp docs sty =
     py_replace ''[STYLE_GUIDELINES]'' (or_none_provided sty)
       (py_replace ''[OPTIONAL_SUPPORTING_DOCS]'' (or_none_provided docs)
         (py_replace ''[SPECIFIC_TOPIC]'' tp
           (py_replace ''[REPORT_TYPE]'' rt
             (py_replace ''[MEETING_BODY]'' b
               (py_replace ''[MEETING_DATE]'' d tr))))) \<and>
   render ''[MEETING_DATE]'' tr d b rt tp docs sty =
     py_replace ''[STYLE_GUIDELINES]'' (or_none_provided sty)
       (py_replace ''[OPTIONAL_SUPPORTING_DOCS]'' (or_none_provided docs)
         (py_replace ''[SPECIFIC_TOPIC]'' tp
           (py_replace ''[REPORT_TYPE]'' rt
             (py_replace ''[MEETING_BODY]'' b d)))) \<and>
   render ''[MEETING_BODY]'' tr d b rt tp docs sty =
     py_replace ''[STYLE_GUIDELINES]'' (or_none_provided sty)
       (py_replace ''[OPTIONAL_SUPPORTING_DOCS]'' (or_none_provided docs)
         (py_replace ''[SPECIFIC_TOPIC]'' tp
           (py_replace ''[REPORT_TYPE]'' rt b))) \<and>
   render ''[REPORT_TYPE]'' tr d b rt tp docs sty =
     py_replace ''[STYLE_GUIDELINES]'' (or_none_provided sty)
       (py_replace ''[OPTIONAL_SUPPORTING_DOCS]'' (or_none_provided docs)
         (py_replace ''[SPECIFIC_TOPIC]'' tp rt)) \<and>
   render ''[SPECIFIC_TOPIC]'' tr d b rt tp docs sty =
     py_replace ''[STYLE_GUIDELINES]'' (or_none_provided sty)
       (py_replace ''[OPTIONAL_SUPPORTING_DOCS]'' (or_none_provided docs) tp) \<and>
   render ''[OPTIONAL_SUPPORTING_DOCS]'' tr d b rt tp docs sty =
     py_replace ''[STYLE_GUIDELINES]'' (or_none_provided sty) (or_none_provided docs) \<and>
   render ''[STYLE_GUIDELINES]'' tr d b rt tp docs sty = or_none_provided sty"
proof -
  have "render T tr d b rt tp docs sty =
     py_replace ''[STYLE_GUIDELINES]'' (or_none_provided sty)
       (py_replace ''[OPTIONAL_SUPPORTING_DOCS]'' (or_none_provided docs)
         (py_replace ''[SPECIFIC_TOPIC]'' tp
           (py_replace ''[REPORT_TYPE]'' rt
             (py_replace ''[MEETING_BODY]'' b
               (py_replace ''[MEETING_DATE]'' d
                 (py_replace ''[MEETING_TRANSCRIPT_TEXT]'' tr T))))))"
    by (simp add: render_def or_none_provided_def)
  moreover note render_fill[OF delimited_PROMPT_TEMPLATE, of tr d b rt tp docs sty]
    render_transcript[of tr d b rt tp docs sty] render_date[of tr d b rt tp docs sty]
    render_body[of tr d b rt tp docs sty] render_report_type[of tr d b rt tp docs sty]
    render_topic[of tr d b rt tp docs sty] render_docs[of tr d b rt tp docs sty]
    render_style[of tr d b rt tp docs sty]
  ultimately show ?thesis by - (intro conjI; assumption)
qed

theorem later_steps_rescan_earlier_values_witness:
  "render ''[MEETING_TRANSCRIPT_TEXT]'' ''see [MEETING_DATE]'' ''2024-05-01'' ''City Council''
     ''Comprehensive'' ''N/A'' [] [] = ''see 2024-05-01''"
  using later_steps_rescan_earlier_values
    [of "[]" "''see [MEETING_DATE]''" "''2024-05-01''" "''City Council''" "''Comprehensive''"
        "''N/A''" "[]" "[]"]
  by (simp add: py_replace_def or_none_provided_def)

section \<open>Values that contain placeholder tokens\<close>

text \<open>
  C1, as stated, fails: with a transcript that reads "see [MEETING_DATE]" the document does
  not contain the token any more; it contains "see 2024-05-01".
\<close>

theorem nested_token_is_substituted:
  "\<not> sublist ''[MEETING_DATE]'' (wtext (output_text_area (generate_prompt nested_token_example))) \<and>
   sublist ''see 2024-05-01'' (wtext (output_text_area (generate_prompt nested_token_example)))"
proof -
  let ?out = "wtext (output_text_area (generate_prompt nested_token_example))"
  have out: "?out = fill (slot nested_token_example) PROMPT_TEMPLATE"
    using nested_token_example_ok by (rule output_fill)
  have none: "list_all (\<lambda>p. \<not> sublist ''[MEETING_DATE]'' (slot nested_token_example p)) placeholders"
    by (simp add: placeholders_def nested_token_slots sublist_code(3))
  have "\<not> sublist ''[MEETING_DATE]'' ?out"
    unfolding out sublist_fill[OF mem_placeholders(2) delimited_PROMPT_TEMPLATE]
    using none by (auto simp: list_all_iff)
  moreover have "sublist (slot nested_token_example ''[MEETING_TRANSCRIPT_TEXT]'') ?out"
    unfolding out
    by (rule sublist_fill_value[OF mem_placeholders(1) delimited_PROMPT_TEMPLATE
          transcript_in_template])
  ultimately show ?thesis by (simp add: nested_token_slots)
qed

text \<open>
  C1, amended.  A field value takes the place of its placeholder unchanged, and so stands
  in the document as it is, when it contains no token of a placeholder that is replaced
  after its own: the transcript none of the other six, the date none of the last five, and
  so on.  Tokens of its own or of earlier placeholders do not matter, and the style
  guidelines, which come last, are always inserted unchanged.  In general the text that
  takes the place of a placeholder is the value of its field with the replacements of the
  later placeholders applied to it, so a token of a later placeholder inside a value is
  replaced by that later step.
\<close>

theorem render_verbatim_without_later_tokens:
  "(no_later_token 1 tr \<longrightarrow>
      render ''[MEETING_TRANSCRIPT_TEXT]'' tr d b rt tp docs sty = tr \<and>
      sublist tr (render PROMPT_TEMPLATE tr d b rt tp docs sty)) \<and>
   (no_later_token 2 d \<longrightarrow>
      render ''[MEETING_DATE]'' tr d b rt tp docs sty = d \<and>
      sublist d (render PROMPT_TEMPLATE tr d b rt tp docs sty)) \<and>
   (no_later_token 3 b \<longrightarrow>
      render ''[MEETING_BODY]'' tr d b rt tp docs sty = b \<and>
      sublist b (render PROMPT_TEMPLATE tr d b rt tp docs sty)) \<and>
   (no_later_token 4 rt \<longrightarrow>
      render ''[REPORT_TYPE]'' tr d b rt tp docs sty = rt \<and>
      sublist rt (render PROMPT_TEMPLATE tr d b rt tp docs sty)) \<and>
   (no_later_token 5 tp \<longrightarrow>
      render ''[SPECIFIC_TOPIC]'' tr d b rt tp docs sty = tp \<and>
      sublist tp (render PROMPT_TEMPLATE tr d b rt tp docs sty)) \<and>
   (no_later_token 6 docs \<longrightarrow>
      render ''[OPTIONAL_SUPPORTING_DOCS]'' tr d b rt tp docs sty = or_none_provided docs \<and>
      sublist (or_none_provided docs) (render PROMPT_TEMPLATE tr d b rt tp docs sty)) \<and>
   render ''[STYLE_GUIDELINES]'' tr d b rt tp docs sty = or_none_provided sty \<and>
   sublist (or_none_provided sty) (render PROMPT_TEMPLATE tr d b rt tp docs sty) \<and>
   render PROMPT_TEMPLATE tr d b rt tp docs sty =
     fill (\<lambda>tok. render tok tr d b rt tp docs sty) PROMPT_TEMPLATE \<and>
   (no_later_token 1 tr \<and> no_later_token 2 d \<and> no_later_token 3 b \<and>
    no_later_token 4 rt \<and> no_later_token 5 tp \<and> no_later_token 6 docs \<longrightarrow>
      render PROMPT_TEMPLATE tr d b rt tp docs sty =
        fill (field_values tr d b rt tp docs sty) PROMPT_TEMPLATE) \<and>
   render ''[MEETING_TRANSCRIPT_TEXT]'' tr d b rt tp docs sty =
     py_replace ''[STYLE_GUIDELINES]'' (or_none_provided sty)
       (py_replace ''[OPTIONAL_SUPPORTING_DOCS]'' (or_none_provided docs)
         (py_replace ''[SPECIFIC_TOPIC]'' tp
           (py_replace ''[REPORT_TYPE]'' rt
             (py_replace ''[MEETING_BODY]'' b
               (py_replace ''[MEETING_DATE]'' d tr))))) \<and>
   render ''[MEETING_DATE]'' tr d b rt tp docs sty =
     py_replace ''[STYLE_GUIDELINES]'' (or_none_provided sty)
       (py_replace ''[OPTIONAL_SUPPORTING_DOCS]'' (or_none_provided docs)
         (py_replace ''[SPECIFIC_TOPIC]'' tp
           (py_replace ''[REPORT_TYPE]'' rt
             (py_replace ''[MEETING_BODY]'' b d)))) \<and>
   render ''[MEETING_BODY]'' tr d b rt tp docs sty =
     py_replace ''[STYLE_GUIDELINES]'' (or_none_provided sty)
       (py_replace ''[OPTIONAL_SUPPORTING_DOCS]'' (or_none_provided docs)
         (py_replace ''[SPECIFIC_TOPIC]'' tp
           (py_replace ''[REPORT_TYPE]'' rt b))) \<and>
   render ''[REPORT_TYPE]'' tr d b rt tp docs sty =
     py_replace ''[STYLE_GUIDELINES]'' (or_none_provided sty)
       (py_replace ''[OPTIONAL_SUPPORTING_DOCS]'' (or_none_provided docs)
         (py_replace ''[SPECIFIC_TOPIC]'' tp rt)) \<and>
   render ''[SPECIFIC_TOPIC]'' tr d b rt tp docs sty =
     py_replace ''[STYLE_GUIDELINES]'' (or_none_provided sty)
       (py_replace ''[OPTIONAL_SUPPORTING_DOCS]'' (or_none_provided docs) tp) \<and>
   render ''[OPTIONAL_SUPPORTING_DOCS]'' tr d b rt tp docs sty =
     py_replace ''[STYLE_GUIDELINES]'' (or_none_provided sty) (or_none_provided docs)"
proof -
  note occ = slot_in_document[of _ tr d b rt tp docs sty]
  have v1: "no_later_token 1 tr \<longrightarrow>
      render ''[MEETING_TRANSCRIPT_TEXT]'' tr d b rt tp docs sty = tr \<and>
      sublist tr (render PROMPT_TEMPLATE tr d b rt tp docs sty)"
    using occ[OF mem_placeholders(1)] by (auto simp: render_transcript_verbatim)
  have v2: "no_later_token 2 d \<longrightarrow>
      render ''[MEETING_DATE]'' tr d b rt tp docs sty = d \<and>
      sublist d (render PROMPT_TEMPLATE tr d b rt tp docs sty)"
    using occ[OF mem_placeholders(2)] by (auto simp: render_date_verbatim)
  have v3: "no_later_token 3 b \<longrightarrow>
      render ''[MEETING_BODY]'' tr d b rt tp docs sty = b \<and>
      sublist b (render PROMPT_TEMPLATE tr d b rt tp docs sty)"
    using occ[OF mem_placeholders(3)] by (auto simp: render_body_verbatim)
  have v4: "no_later_token 4 rt \<longrightarrow>
      render ''[REPORT_TYPE]'' tr d b rt tp docs sty = rt \<and>
      sublist rt (render PROMPT_TEMPLATE tr d b rt tp docs sty)"
    using occ[OF mem_placeholders(4)] by (auto simp: render_report_type_verbatim)
  have v5: "no_later_token 5 tp \<longrightarrow>
      render ''[SPECIFIC_TOPIC]'' tr d b rt tp docs sty = tp \<and>
      sublist tp (render PROMPT_TEMPLATE tr d b rt tp docs sty)"
    using occ[OF mem_placeholders(5)] by (auto simp: render_topic_verbatim)
  have v6: "no_later_token 6 docs \<longrightarrow>
      render ''[OPTIONAL_SUPPORTING_DOCS]'' tr d b rt tp docs sty = or_none_provided docs \<and>
      sublist (or_none_provided docs) (render PROMPT_TEMPLATE tr d b rt tp docs sty)"
    using occ[OF mem_placeholders(6)] by (auto simp: render_docs_verbatim)
  have v7: "render ''[STYLE_GUIDELINES]'' tr d b rt tp docs sty = or_none_provided sty"
    by (rule render_style)
  have o7: "sublist (or_none_provided sty) (render PROMPT_TEMPLATE tr d b rt tp docs sty)"
    using occ[OF mem_placeholders(7)] by (simp add: render_style)
  have all: "no_later_token 1 tr \<and> no_later_token 2 d \<and> no_later_token 3 b \<and>
    no_later_token 4 rt \<and> no_later_token 5 tp \<and> no_later_token 6 docs \<longrightarrow>
      render PROMPT_TEMPLATE tr d b rt tp docs sty =
        fill (field_values tr d b rt tp docs sty) PROMPT_TEMPLATE"
  proof
    assume h: "no_later_token 1 tr \<and> no_later_token 2 d \<and> no_later_token 3 b \<and>
      no_later_token 4 rt \<and> no_later_token 5 tp \<and> no_later_token 6 docs"
    show "render PROMPT_TEMPLATE tr d b rt tp docs sty =
        fill (field_values tr d b rt tp docs sty) PROMPT_TEMPLATE"
      unfolding render_fill[OF delimited_PROMPT_TEMPLATE]
      by (rule fill_cong) (rule render_eq_fields, insert h, simp_all)
  qed
  note render_fill[OF delimited_PROMPT_TEMPLATE, of tr d b rt tp docs sty]
    render_transcript[of tr d b rt tp docs sty] render_date[of tr d b rt tp docs sty]
    render_body[of tr d b rt tp docs sty] render_report_type[of tr d b rt tp docs sty]
    render_topic[of tr d b rt tp docs sty] render_docs[of tr d b rt tp docs sty]
  with v1 v2 v3 v4 v5 v6 v7 o7 all show ?thesis by - (intro conjI; assumption)
qed

theorem render_verbatim_without_later_tokens_witness:
  "no_later_token 1 ''about [MEETING_TRANSCRIPT_TEXT]'' \<and>
   render ''[MEETING_TRANSCRIPT_TEXT]'' ''about [MEETING_TRANSCRIPT_TEXT]'' ''2024-05-01''
       ''[MEETING_BODY]'' ''Comprehensive'' ''N/A'' ''agenda'' ''cite [MEETING_DATE]'' =
     ''about [MEETING_TRANSCRIPT_TEXT]'' \<and>
   sublist ''about [MEETING_TRANSCRIPT_TEXT]''
     (render PROMPT_TEMPLATE ''about [MEETING_TRANSCRIPT_TEXT]'' ''2024-05-01''
        ''[MEETING_BODY]'' ''Comprehensive'' ''N/A'' ''agenda'' ''cite [MEETING_DATE]'') \<and>
   sublist ''cite [MEETING_DATE]''
     (render PROMPT_TEMPLATE ''about [MEETING_TRANSCRIPT_TEXT]'' ''2024-05-01''
        ''[MEETING_BODY]'' ''Comprehensive'' ''N/A'' ''agenda'' ''cite [MEETING_DATE]'')"
proof -
  have h: "no_later_token 1 ''about [MEETING_TRANSCRIPT_TEXT]''"
    by (simp add: no_later_token_def placeholders_def sublist_code(3))
  note r = render_verbatim_without_later_tokens
    [of "''about [MEETING_TRANSCRIPT_TEXT]''" "''2024-05-01''" "''[MEETING_BODY]''"
        "''Comprehensive''" "''N/A''" "''agenda''" "''cite [MEETING_DATE]''"]
  from r[THEN conjunct1] h
  have a: "render ''[MEETING_TRANSCRIPT_TEXT]'' ''about [MEETING_TRANSCRIPT_TEXT]'' ''2024-05-01''
       ''[MEETING_BODY]'' ''Comprehensive'' ''N/A'' ''agenda'' ''cite [MEETING_DATE]'' =
     ''about [MEETING_TRANSCRIPT_TEXT]''"
    and b: "sublist ''about [MEETING_TRANSCRIPT_TEXT]''
     (render PROMPT_TEMPLATE ''about [MEETING_TRANSCRIPT_TEXT]'' ''2024-05-01''
        ''[MEETING_BODY]'' ''Comprehensive'' ''N/A'' ''agenda'' ''cite [MEETING_DATE]'')"
    by blast+
  from r have c: "sublist (or_none_provided ''cite [MEETING_DATE]'')
     (render PROMPT_TEMPLATE ''about [MEETING_TRANSCRIPT_TEXT]'' ''2024-05-01''
        ''[MEETING_BODY]'' ''Comprehensive'' ''N/A'' ''agenda'' ''cite [MEETING_DATE]'')"
    by blast
  then have c': "sublist ''cite [MEETING_DATE]''
     (render PROMPT_TEMPLATE ''about [MEETING_TRANSCRIPT_TEXT]'' ''2024-05-01''
        ''[MEETING_BODY]'' ''Comprehensive'' ''N/A'' ''agenda'' ''cite [MEETING_DATE]'')"
    by (simp add: or_none_provided_def)
  from h a b c' show ?thesis by - (intro conjI; assumption)
qed




section \<open>Defaults\<close>

text \<open>
  C4.  When the report type is "Comprehensive" and the required inputs are there, the
  placeholder [SPECIFIC_TOPIC] is replaced by "N/A", and the output does not depend on the
  topic entry.
\<close>

theorem comprehensive_topic_is_not_applicable:
  assumes "\<not> required_missing st" "report_type_var st = ''Comprehensive''"
  shows "wtext (output_text_area (generate_prompt st)) = fill (slot st) PROMPT_TEMPLATE \<and>
         slot st ''[SPECIFIC_TOPIC]'' = ''N/A'' \<and>
         output_text_area (generate_prompt (st\<lparr>topic_entry := t\<rparr>)) =
           output_text_area (generate_prompt st)"
proof -
  have na: "\<not> sublist ''[OPTIONAL_SUPPORTING_DOCS]'' ''N/A''" "\<not> sublist ''[STYLE_GUIDELINES]'' ''N/A''"
    by (simp_all add: sublist_code(3))
  have "slot st ''[SPECIFIC_TOPIC]'' = ''N/A''"
    using assms(2) na
    by (simp add: slot_def render_topic py_replace_absent mem_placeholders)
  moreover have "\<not> required_missing (st\<lparr>topic_entry := t\<rparr>)"
    using assms by (simp add: required_missing_def)
  moreover have "document (st\<lparr>topic_entry := t\<rparr>) = document st"
    using assms(2) by (simp add: document_def)
  ultimately have "slot st ''[SPECIFIC_TOPIC]'' = ''N/A''"
    and "output_text_area (generate_prompt (st\<lparr>topic_entry := t\<rparr>)) =
           output_text_area (generate_prompt st)"
    using assms(1) by (simp_all add: generate_prompt_rendered)
  with output_fill[OF assms(1)] show ?thesis by - (intro conjI; assumption)
qed

theorem comprehensive_topic_is_not_applicable_witness:
  "\<not> required_missing comprehensive_example \<and>
   report_type_var comprehensive_example = ''Comprehensive'' \<and>
   topic_entry comprehensive_example = ''Zoning'' \<and>
   wtext (output_text_area (generate_prompt comprehensive_example)) =
     fill (slot comprehensive_example) PROMPT_TEMPLATE \<and>
   slot comprehensive_example ''[SPECIFIC_TOPIC]'' = ''N/A''"
proof -
  have rt: "report_type_var comprehensive_example = ''Comprehensive''"
    and tp: "topic_entry comprehensive_example = ''Zoning''"
    by (simp_all add: comprehensive_example_def)
  note r = comprehensive_topic_is_not_applicable[OF comprehensive_example_ok rt]
  from comprehensive_example_ok rt tp r[THEN conjunct1] r[THEN conjunct2, THEN conjunct1]
  show ?thesis by - (intro conjI; assumption)
qed

text \<open>
  C5.  When the supporting documents and the style guidelines are both empty after
  trimming, and the required inputs are there, the placeholders
  [OPTIONAL_SUPPORTING_DOCS] and [STYLE_GUIDELINES] are each replaced by "None provided."
\<close>

theorem empty_optional_fields_get_fallback:
  assumes "\<not> required_missing st"
    "strip (text_get (docs_text_area st)) = []" "strip (text_get (style_text_area st)) = []"
  shows "wtext (output_text_area (generate_prompt st)) = fill (slot st) PROMPT_TEMPLATE \<and>
         slot st ''[OPTIONAL_SUPPORTING_DOCS]'' = ''None provided.'' \<and>
         slot st ''[STYLE_GUIDELINES]'' = ''None provided.''"
proof -
  have np: "\<not> sublist ''[STYLE_GUIDELINES]'' ''None provided.''"
    by (simp add: sublist_code(3))
  have "slot st ''[OPTIONAL_SUPPORTING_DOCS]'' = ''None provided.''"
    using assms(2,3) np
    by (simp add: slot_def render_docs or_none_provided_def py_replace_absent mem_placeholders)
  moreover have "slot st ''[STYLE_GUIDELINES]'' = ''None provided.''"
    using assms(3) by (simp add: slot_def render_style or_none_provided_def)
  ultimately show ?thesis using assms(1) by (simp add: output_fill)
qed

theorem empty_optional_fields_get_fallback_witness:
  "\<not> required_missing comprehensive_example \<and>
   strip (text_get (docs_text_area comprehensive_example)) = [] \<and>
   strip (text_get (style_text_area comprehensive_example)) = [] \<and>
   wtext (output_text_area (generate_prompt comprehensive_example)) =
     fill (slot comprehensive_example) PROMPT_TEMPLATE \<and>
   slot comprehensive_example ''[OPTIONAL_SUPPORTING_DOCS]'' = ''None provided.'' \<and>
   slot comprehensive_example ''[STYLE_GUIDELINES]'' = ''None provided.''"
proof -
  have e: "strip (text_get (docs_text_area comprehensive_example)) = []"
    "strip (text_get (style_text_area comprehensive_example)) = []"
    by (simp_all add: comprehensive_example_def spec_example_def strip_def isspace_def
        text_get_def)
  note r = empty_optional_fields_get_fallback[OF comprehensive_example_ok e]
  from comprehensive_example_ok e r[THEN conjunct1] r[THEN conjunct2, THEN conjunct1]
    r[THEN conjunct2, THEN conjunct2]
  show ?thesis by - (intro conjI; assumption)
qed

end
